theory Spec2Isabelle
  imports Main "HOL-Library.Word" "HOL-Library.Sublist"
begin

unbundle bit_operations_syntax

section \<open>Device sessions of libfido2 (src/dev.c)\<close>

text \<open>
  A shallow embedding of \<^verbatim>\<open>src/dev.c\<close>: the session object \<^verbatim>\<open>fido_dev_t\<close>, the INIT
  handshake of \<^verbatim>\<open>fido_dev_open\<close>, \<^verbatim>\<open>fido_dev_close\<close>, \<^verbatim>\<open>fido_dev_cancel\<close>,
  \<^verbatim>\<open>fido_dev_set_io_functions\<close>, the capability accessors, and the process-wide registry
  of device-manifest providers with \<^verbatim>\<open>fido_init\<close> and \<^verbatim>\<open>fido_exit\<close>.

  Everything outside the C program is a world of type \<open>'w\<close>, threaded through every call
  that can touch it: a function of the I/O vtable, the transport functions, the operating
  system. A pointer that may be \<^verbatim>\<open>NULL\<close> is an \<open>option\<close>, \<open>None\<close> being \<^verbatim>\<open>NULL\<close>; this
  holds for function pointers too.
\<close>

subsection \<open>Integers, status codes and protocol constants\<close>

type_synonym u8 = "8 word"
type_synonym u32 = "32 word"
type_synonym u64 = "64 word"

text \<open>
  \<^verbatim>\<open>size_t\<close>, an unsigned machine integer, of 64 bits here: addition and subtraction
  wrap around.
\<close>

type_synonym size_t = "64 word"

text \<open>
  The status codes of \<^verbatim>\<open>fido/err.h\<close> that \<^verbatim>\<open>dev.c\<close> names, as distinct values. A manifest
  provider may return any other code: \<open>FIDO_ERR c\<close>.
\<close>

datatype fido_err =
    FIDO_OK
  | FIDO_ERR_TX
  | FIDO_ERR_RX
  | FIDO_ERR_INVALID_ARGUMENT
  | FIDO_ERR_INTERNAL
  | FIDO_ERR int

text \<open>
  Modelled from the spec: the header with the CTAPHID constants is not among the sources.
  The spec gives an INIT frame the command byte \<^verbatim>\<open>cmd|0x80\<close>, the commands INIT (0x06)
  and CANCEL (0x11), the broadcast channel \<^verbatim>\<open>0xFFFFFFFF\<close>, and flags \<^verbatim>\<open>0x05\<close> for
  \<^verbatim>\<open>wink|cbor\<close>, the CBOR capability being the bit of value 4.
\<close>

definition CTAP_FRAME_INIT :: u8 where
  "CTAP_FRAME_INIT = 0x80"

definition CTAP_CMD_INIT :: u8 where
  "CTAP_CMD_INIT = 0x06"


definition CTAP_CID_BROADCAST :: u32 where
  "CTAP_CID_BROADCAST = 0xFFFFFFFF"

definition FIDO_CAP_CBOR :: u8 where
  "FIDO_CAP_CBOR = 0x04"

subsection \<open>The session object\<close>

text \<open>
  \<^verbatim>\<open>fido_ctap_info_t\<close>, the attributes an INIT reply carries: the echoed nonce, the
  channel id and five single bytes.
\<close>

record fido_ctap_info =
  attr_nonce :: u64
  attr_cid :: u32
  protocol :: u8
  major :: u8
  minor :: u8
  build :: u8
  flags :: u8

text \<open>
  Modelled from the spec: the declaration of \<^verbatim>\<open>fido_ctap_info_t\<close> is not among the
  sources. \<^verbatim>\<open>sizeof(dev->attr)\<close> is the 8 bytes of the nonce, the 4 of the channel id
  and the 5 attribute bytes. No theorem below depends on the number.
\<close>

definition sizeof_attr :: nat where
  "sizeof_attr = 17"

text \<open>
  The I/O vtable \<^verbatim>\<open>fido_dev_io_t\<close>: four function pointers. A handle is a \<^verbatim>\<open>void *\<close>, so
  the functions receive an \<open>'h option\<close>; \<^verbatim>\<open>open\<close> returns \<^verbatim>\<open>NULL\<close> when it fails.
\<close>

type_synonym ('h, 'w) open_fn = "string option \<Rightarrow> 'w \<Rightarrow> 'h option \<times> 'w"
type_synonym ('h, 'w) close_fn = "'h option \<Rightarrow> 'w \<Rightarrow> 'w"
type_synonym ('h, 'w) read_fn = "'h option \<Rightarrow> nat \<Rightarrow> int \<Rightarrow> 'w \<Rightarrow> (int \<times> u8 list) \<times> 'w"
type_synonym ('h, 'w) write_fn = "'h option \<Rightarrow> u8 list \<Rightarrow> 'w \<Rightarrow> int \<times> 'w"

record ('h, 'w) fido_dev_io =
  io_open :: "('h, 'w) open_fn option"
  io_close :: "('h, 'w) close_fn option"
  io_read :: "('h, 'w) read_fn option"
  io_write :: "('h, 'w) write_fn option"

text \<open>\<^verbatim>\<open>fido_dev_info_t\<close>, as far as \<^verbatim>\<open>dev.c\<close> reads it.\<close>

record ('h, 'w) fido_dev_info =
  path :: "string option"
  manufacturer :: "string option"
  product :: "string option"
  io :: "('h, 'w) fido_dev_io"

text \<open>
  \<^verbatim>\<open>fido_dev_t\<close>, as far as \<^verbatim>\<open>dev.c\<close> reads and writes it. \<^verbatim>\<open>dev_info\<close> points to a
  structure the session owns, so it is a field by value.
\<close>

record ('h, 'w) fido_dev =
  nonce :: u64
  attr :: fido_ctap_info
  cid :: u32
  io_handle :: "'h option"
  dev_info :: "('h, 'w) fido_dev_info"

subsection \<open>The environment\<close>

text \<open>
  The buffer handed to \<^verbatim>\<open>fido_tx\<close>: \<^verbatim>\<open>dev.c\<close> passes either the session's nonce
  (\<^verbatim>\<open>&dev->nonce\<close>, 8 bytes) or nothing (\<^verbatim>\<open>NULL\<close>, 0 bytes).
\<close>

datatype tx_buf = Buf_nonce u64 | Buf_null

text \<open>
  What \<^verbatim>\<open>dev.c\<close> calls and does not define. \<^verbatim>\<open>fido_tx\<close> and \<^verbatim>\<open>fido_rx\<close> are the
  transport functions: they receive the session (its handle, channel id and vtable), the
  command byte and the buffer, and return a negative number when they fail. \<^verbatim>\<open>fido_rx\<close>
  returns the number of bytes it received and writes them over \<^verbatim>\<open>dev->attr\<close>: the model
  has it return the attribute structure as it stands after the call. Neither writes to
  any other part of the session. The three system calls are those of \<^verbatim>\<open>obtain_nonce\<close>:
  opening \<^verbatim>\<open>FIDO_RANDOM_DEV\<close>, reading 8 bytes into the nonce, closing.
\<close>

record ('h, 'w) env =
  sys_open :: "'w \<Rightarrow> int \<times> 'w"
  sys_read :: "int \<Rightarrow> u64 \<Rightarrow> 'w \<Rightarrow> (int \<times> u64) \<times> 'w"
  sys_close :: "int \<Rightarrow> 'w \<Rightarrow> 'w"
  fido_tx :: "('h, 'w) fido_dev \<Rightarrow> u8 \<Rightarrow> tx_buf \<Rightarrow> 'w \<Rightarrow> int \<times> 'w"
  fido_rx :: "('h, 'w) fido_dev \<Rightarrow> u8 \<Rightarrow> nat \<Rightarrow> int \<Rightarrow> 'w \<Rightarrow> (int \<times> fido_ctap_info) \<times> 'w"

text \<open>
  \<^verbatim>\<open>obtain_nonce\<close>, the \<^verbatim>\<open>HAS_DEV_URANDOM\<close> variant. \<open>sys_read env fd n w\<close> is
  \<^verbatim>\<open>read(fd, nonce, sizeof(*nonce))\<close> on a nonce holding \<open>n\<close>: it returns the count and
  the nonce as the read left it. The descriptor is closed on every path that opened it.
\<close>

definition obtain_nonce :: "('h, 'w) env \<Rightarrow> u64 \<Rightarrow> 'w \<Rightarrow> (int \<times> u64) \<times> 'w" where
  "obtain_nonce env n w =
     (case sys_open env w of (fd, w1) \<Rightarrow>
        if fd < 0 then ((-1, n), if fd \<noteq> -1 then sys_close env fd w1 else w1)
        else case sys_read env fd n w1 of ((r, n'), w2) \<Rightarrow>
          if r < 0 \<or> r \<noteq> 8 then ((-1, n'), sys_close env fd w2)
          else ((0, n'), sys_close env fd w2))"

subsection \<open>Opening a session: the INIT handshake\<close>

text \<open>
  \<^verbatim>\<open>fido_dev_open_tx\<close>: refuse a session that has a handle or a vtable without
  \<^verbatim>\<open>open\<close> or \<^verbatim>\<open>close\<close>; draw a nonce; open the device; send the nonce in an INIT
  frame. When the send fails, the handle is closed and nulled.
\<close>

definition fido_dev_open_tx ::
  "('h, 'w) env \<Rightarrow> ('h, 'w) fido_dev \<Rightarrow> string option \<Rightarrow> 'w \<Rightarrow> (fido_err \<times> ('h, 'w) fido_dev) \<times> 'w" where
  "fido_dev_open_tx env dev pth w =
     (let cmd = CTAP_FRAME_INIT OR CTAP_CMD_INIT in
      if io_handle dev \<noteq> None then ((FIDO_ERR_INVALID_ARGUMENT, dev), w)
      else case io_open (io (dev_info dev)) of
        None \<Rightarrow> ((FIDO_ERR_INVALID_ARGUMENT, dev), w)
      | Some opn \<Rightarrow>
        (case io_close (io (dev_info dev)) of
          None \<Rightarrow> ((FIDO_ERR_INVALID_ARGUMENT, dev), w)
        | Some cls \<Rightarrow>
          (case obtain_nonce env (nonce dev) w of ((r, n), w1) \<Rightarrow>
             let dev1 = dev\<lparr>nonce := n\<rparr> in
             if r < 0 then ((FIDO_ERR_INTERNAL, dev1), w1)
             else case opn pth w1 of (h, w2) \<Rightarrow>
               let dev2 = dev1\<lparr>io_handle := h\<rparr> in
               if h = None then ((FIDO_ERR_INTERNAL, dev2), w2)
               else case fido_tx env dev2 cmd (Buf_nonce (nonce dev2)) w2 of (k, w3) \<Rightarrow>
                 if k < 0
                 then ((FIDO_ERR_TX, dev2\<lparr>io_handle := None\<rparr>), cls (io_handle dev2) w3)
                 else ((FIDO_OK, dev2), w3))))"

text \<open>
  The \<^verbatim>\<open>fail\<close> label of \<^verbatim>\<open>fido_dev_open_rx\<close>: call the vtable's \<^verbatim>\<open>close\<close> on the handle,
  null the handle, return the Rx error. The function pointer is called unchecked: the
  result is \<open>None\<close> when it is \<^verbatim>\<open>NULL\<close> (the C program has no defined behaviour there).
\<close>

definition fido_dev_open_rx_fail ::
  "('h, 'w) fido_dev \<Rightarrow> 'w \<Rightarrow> ((fido_err \<times> ('h, 'w) fido_dev) \<times> 'w) option" where
  "fido_dev_open_rx_fail dev w =
     (case io_close (io (dev_info dev)) of
        None \<Rightarrow> None
      | Some cls \<Rightarrow> Some ((FIDO_ERR_RX, dev\<lparr>io_handle := None\<rparr>), cls (io_handle dev) w))"

text \<open>
  \<^verbatim>\<open>fido_dev_open_rx\<close>: receive the INIT reply into \<^verbatim>\<open>dev->attr\<close>; fail when the
  receive fails, when the reply has not the size of the attribute structure, or when its
  nonce is not the session's; otherwise take the channel id. \<open>fuzz\<close> is the compile-time
  switch \<^verbatim>\<open>FIDO_FUZZ\<close>, which overwrites the reply's nonce with the session's.
\<close>

definition fido_dev_open_rx ::
  "bool \<Rightarrow> ('h, 'w) env \<Rightarrow> ('h, 'w) fido_dev \<Rightarrow> int \<Rightarrow> 'w \<Rightarrow> ((fido_err \<times> ('h, 'w) fido_dev) \<times> 'w) option" where
  "fido_dev_open_rx fuzz env dev ms w =
     (let cmd = CTAP_FRAME_INIT OR CTAP_CMD_INIT in
      case fido_rx env dev cmd sizeof_attr ms w of ((n, a), w1) \<Rightarrow>
        let dev1 = dev\<lparr>attr := a\<rparr> in
        if n < 0 then fido_dev_open_rx_fail dev1 w1
        else
          let dev2 = (if fuzz then dev1\<lparr>attr := (attr dev1)\<lparr>attr_nonce := nonce dev1\<rparr>\<rparr> else dev1) in
          if nat n \<noteq> sizeof_attr \<or> attr_nonce (attr dev2) \<noteq> nonce dev2
          then fido_dev_open_rx_fail dev2 w1
          else Some ((FIDO_OK, dev2\<lparr>cid := attr_cid (attr dev2)\<rparr>), w1))"

text \<open>\<^verbatim>\<open>fido_dev_open_wait\<close>: the two halves in sequence, stopping at the first error.\<close>

definition fido_dev_open_wait ::
  "bool \<Rightarrow> ('h, 'w) env \<Rightarrow> ('h, 'w) fido_dev \<Rightarrow> string option \<Rightarrow> int \<Rightarrow> 'w \<Rightarrow>
     ((fido_err \<times> ('h, 'w) fido_dev) \<times> 'w) option" where
  "fido_dev_open_wait fuzz env dev pth ms w =
     (case fido_dev_open_tx env dev pth w of ((r, dev1), w1) \<Rightarrow>
        if r \<noteq> FIDO_OK then Some ((r, dev1), w1)
        else (case fido_dev_open_rx fuzz env dev1 ms w1 of
            None \<Rightarrow> None
          | Some ((r', dev2), w2) \<Rightarrow>
              (if r' \<noteq> FIDO_OK then Some ((r', dev2), w2) else Some ((FIDO_OK, dev2), w2))))"

text \<open>\<^verbatim>\<open>fido_dev_open_wait_with_info\<close>: the same, on the path stored in the session.\<close>

definition fido_dev_open_wait_with_info ::
  "bool \<Rightarrow> ('h, 'w) env \<Rightarrow> ('h, 'w) fido_dev \<Rightarrow> int \<Rightarrow> 'w \<Rightarrow>
     ((fido_err \<times> ('h, 'w) fido_dev) \<times> 'w) option" where
  "fido_dev_open_wait_with_info fuzz env dev ms w =
     (case fido_dev_open_tx env dev (path (dev_info dev)) w of ((r, dev1), w1) \<Rightarrow>
        if r \<noteq> FIDO_OK then Some ((r, dev1), w1)
        else (case fido_dev_open_rx fuzz env dev1 ms w1 of
            None \<Rightarrow> None
          | Some ((r', dev2), w2) \<Rightarrow>
              (if r' \<noteq> FIDO_OK then Some ((r', dev2), w2) else Some ((FIDO_OK, dev2), w2))))"

definition fido_dev_open_with_info ::
  "bool \<Rightarrow> ('h, 'w) env \<Rightarrow> ('h, 'w) fido_dev \<Rightarrow> 'w \<Rightarrow> ((fido_err \<times> ('h, 'w) fido_dev) \<times> 'w) option" where
  "fido_dev_open_with_info fuzz env dev w = fido_dev_open_wait_with_info fuzz env dev (-1) w"

definition fido_dev_open ::
  "bool \<Rightarrow> ('h, 'w) env \<Rightarrow> ('h, 'w) fido_dev \<Rightarrow> string option \<Rightarrow> 'w \<Rightarrow>
     ((fido_err \<times> ('h, 'w) fido_dev) \<times> 'w) option" where
  "fido_dev_open fuzz env dev pth w = fido_dev_open_wait fuzz env dev pth (-1) w"

subsection \<open>Closing, cancelling, replacing the vtable\<close>

text \<open>
  \<^verbatim>\<open>fido_dev_close\<close>: refused without a handle or without a \<^verbatim>\<open>close\<close> function;
  otherwise the vtable's \<^verbatim>\<open>close\<close> is called on the handle and the handle is nulled.
\<close>

definition fido_dev_close ::
  "('h, 'w) fido_dev \<Rightarrow> 'w \<Rightarrow> (fido_err \<times> ('h, 'w) fido_dev) \<times> 'w" where
  "fido_dev_close dev w =
     (if io_handle dev = None then ((FIDO_ERR_INVALID_ARGUMENT, dev), w)
      else case io_close (io (dev_info dev)) of
        None \<Rightarrow> ((FIDO_ERR_INVALID_ARGUMENT, dev), w)
      | Some cls \<Rightarrow> ((FIDO_OK, dev\<lparr>io_handle := None\<rparr>), cls (io_handle dev) w))"


text \<open>
  \<^verbatim>\<open>fido_dev_set_io_functions\<close>: refused while a handle is open, and when the vtable
  pointer or one of its four functions is \<^verbatim>\<open>NULL\<close>.
\<close>

definition fido_dev_set_io_functions ::
  "('h, 'w) fido_dev \<Rightarrow> ('h, 'w) fido_dev_io option \<Rightarrow> fido_err \<times> ('h, 'w) fido_dev" where
  "fido_dev_set_io_functions dev iop =
     (if io_handle dev \<noteq> None then (FIDO_ERR_INVALID_ARGUMENT, dev)
      else case iop of
        None \<Rightarrow> (FIDO_ERR_INVALID_ARGUMENT, dev)
      | Some v \<Rightarrow>
          (if io_open v = None \<or> io_close v = None \<or> io_read v = None \<or> io_write v = None
           then (FIDO_ERR_INVALID_ARGUMENT, dev)
           else (FIDO_OK, dev\<lparr>dev_info := (dev_info dev)\<lparr>io := v\<rparr>\<rparr>)))"

subsection \<open>Creating a session\<close>

text \<open>The four HID functions \<^verbatim>\<open>fido_dev_new\<close> installs; they are defined elsewhere.\<close>

record ('h, 'w) hid =
  fido_hid_open :: "('h, 'w) open_fn"
  fido_hid_close :: "('h, 'w) close_fn"
  fido_hid_read :: "('h, 'w) read_fn"
  fido_hid_write :: "('h, 'w) write_fn"

text \<open>
  \<^verbatim>\<open>fido_dev_new\<close>. \<open>calloc_ok\<close> tells whether \<^verbatim>\<open>calloc\<close> returned memory (zeroed, so
  the nonce and the attributes are 0 and the handle is \<^verbatim>\<open>NULL\<close>); \<open>info\<close> is what
  \<^verbatim>\<open>fido_dev_info_new(1)\<close> returned. The result is \<open>None\<close> when the function returns
  \<^verbatim>\<open>NULL\<close>.
\<close>

definition fido_dev_new ::
  "bool \<Rightarrow> ('h, 'w) fido_dev_info option \<Rightarrow> ('h, 'w) hid \<Rightarrow> ('h, 'w) fido_dev option" where
  "fido_dev_new calloc_ok info h =
     (if \<not> calloc_ok then None
      else case info of
        None \<Rightarrow> None
      | Some di \<Rightarrow>
          Some \<lparr>nonce = 0,
                attr = \<lparr>attr_nonce = 0, attr_cid = 0, protocol = 0, major = 0, minor = 0,
                        build = 0, flags = 0\<rparr>,
                cid = CTAP_CID_BROADCAST,
                io_handle = None,
                dev_info = di\<lparr>io := \<lparr>io_open = Some (fido_hid_open h),
                                       io_close = Some (fido_hid_close h),
                                       io_read = Some (fido_hid_read h),
                                       io_write = Some (fido_hid_write h)\<rparr>\<rparr>\<rparr>)"

text \<open>
  \<^verbatim>\<open>copy_fido_dev_info\<close>: a copy of the structure, its three strings duplicated. \<open>strdup\<close>
  is the library function, which returns \<^verbatim>\<open>NULL\<close> when it has no memory; the code does not
  test its result.
\<close>

definition copy_fido_dev_info ::
  "bool \<Rightarrow> (string \<Rightarrow> string option) \<Rightarrow> ('h, 'w) fido_dev_info \<Rightarrow> ('h, 'w) fido_dev_info option" where
  "copy_fido_dev_info calloc_ok strdup di =
     (if \<not> calloc_ok then None
      else Some (di\<lparr>path := (case path di of None \<Rightarrow> None | Some s \<Rightarrow> strdup s),
                    manufacturer := (case manufacturer di of None \<Rightarrow> None | Some s \<Rightarrow> strdup s),
                    product := (case product di of None \<Rightarrow> None | Some s \<Rightarrow> strdup s)\<rparr>))"

text \<open>
  \<^verbatim>\<open>fido_dev_new_with_info\<close>: refused when one of the four functions of the given
  structure is \<^verbatim>\<open>NULL\<close>; the session owns a copy of the structure.
\<close>

definition fido_dev_new_with_info ::
  "bool \<Rightarrow> bool \<Rightarrow> (string \<Rightarrow> string option) \<Rightarrow> ('h, 'w) fido_dev_info \<Rightarrow> ('h, 'w) fido_dev option" where
  "fido_dev_new_with_info calloc_ok copy_ok strdup di =
     (if \<not> calloc_ok then None
      else if io_open (io di) = None \<or> io_close (io di) = None \<or> io_read (io di) = None \<or>
              io_write (io di) = None then None
      else case copy_fido_dev_info copy_ok strdup di of
        None \<Rightarrow> None
      | Some c \<Rightarrow>
          Some \<lparr>nonce = 0,
                attr = \<lparr>attr_nonce = 0, attr_cid = 0, protocol = 0, major = 0, minor = 0,
                        build = 0, flags = 0\<rparr>,
                cid = CTAP_CID_BROADCAST,
                io_handle = None,
                dev_info = c\<rparr>)"

subsection \<open>Capabilities\<close>

definition fido_dev_flags :: "('h, 'w) fido_dev \<Rightarrow> u8" where
  "fido_dev_flags dev = flags (attr dev)"

text \<open>\<^verbatim>\<open>fido_dev_is_fido2\<close>: the C expression is converted to \<^verbatim>\<open>bool\<close>, true when not 0.\<close>

definition fido_dev_is_fido2 :: "('h, 'w) fido_dev \<Rightarrow> bool" where
  "fido_dev_is_fido2 dev = (flags (attr dev) AND FIDO_CAP_CBOR \<noteq> 0)"

definition fido_dev_force_u2f :: "('h, 'w) fido_dev \<Rightarrow> ('h, 'w) fido_dev" where
  "fido_dev_force_u2f dev = dev\<lparr>attr := (attr dev)\<lparr>flags := flags (attr dev) AND NOT FIDO_CAP_CBOR\<rparr>\<rparr>"

definition fido_dev_force_fido2 :: "('h, 'w) fido_dev \<Rightarrow> ('h, 'w) fido_dev" where
  "fido_dev_force_fido2 dev = dev\<lparr>attr := (attr dev)\<lparr>flags := flags (attr dev) OR FIDO_CAP_CBOR\<rparr>\<rparr>"

subsection \<open>The registry of manifest providers\<close>

text \<open>
  A provider \<^verbatim>\<open>dev_manifest_func_t\<close> is called as
  \<^verbatim>\<open>m_func(devlist + *olen, ilen - *olen, &curr_olen)\<close>. The array \<^verbatim>\<open>devlist\<close> is
  memory of the caller, part of the world: the provider receives the position
  \<^verbatim>\<open>*olen\<close> in it and the capacity left, and returns its status and the count it stored
  in \<^verbatim>\<open>curr_olen\<close>.
\<close>

type_synonym 'w dev_manifest_func = "size_t \<Rightarrow> size_t \<Rightarrow> 'w \<Rightarrow> (fido_err \<times> size_t) \<times> 'w"

text \<open>
  The global \<^verbatim>\<open>manifest_funcs\<close> is a singly linked list of nodes: a list of providers,
  the head node first.

  \<^verbatim>\<open>fido_dev_register_manifest_func\<close>: the new node becomes the head. \<open>calloc_ok\<close>
  tells whether \<^verbatim>\<open>calloc\<close> returned memory.
\<close>

definition fido_dev_register_manifest_func ::
  "bool \<Rightarrow> 'w dev_manifest_func \<Rightarrow> 'w dev_manifest_func list \<Rightarrow> fido_err \<times> 'w dev_manifest_func list" where
  "fido_dev_register_manifest_func calloc_ok func manifest_funcs =
     (if \<not> calloc_ok then (FIDO_ERR_INTERNAL, manifest_funcs)
      else (FIDO_OK, func # manifest_funcs))"

text \<open>A run of registrations, each with the outcome of its allocation; the statuses are dropped.\<close>

fun register_all ::
  "(bool \<times> 'w dev_manifest_func) list \<Rightarrow> 'w dev_manifest_func list \<Rightarrow> 'w dev_manifest_func list" where
  "register_all [] manifest_funcs = manifest_funcs"
| "register_all ((ok, f) # rest) manifest_funcs =
     register_all rest (snd (fido_dev_register_manifest_func ok f manifest_funcs))"

text \<open>
  One iteration of the loop of \<^verbatim>\<open>fido_dev_info_manifest\<close>, as it is observed: the
  provider called, the capacity it was given, what it returned, and \<^verbatim>\<open>*olen\<close> after the
  iteration.
\<close>

record 'w manifest_call =
  call_func :: "'w dev_manifest_func"
  call_cap :: size_t
  call_ret :: fido_err
  call_olen :: size_t
  olen_after :: size_t

text \<open>
  The loop of \<^verbatim>\<open>fido_dev_info_manifest\<close> from the node \<^verbatim>\<open>curr\<close> on, with \<^verbatim>\<open>*olen\<close> as
  it stands. It returns the status, the final \<^verbatim>\<open>*olen\<close>, and the iterations it made in
  order (the record of calls is an observation, not data of the C program).
\<close>

fun manifest_loop ::
  "'w dev_manifest_func list \<Rightarrow> size_t \<Rightarrow> size_t \<Rightarrow> 'w \<Rightarrow>
     (fido_err \<times> size_t \<times> 'w manifest_call list) \<times> 'w" where
  "manifest_loop [] ilen olen w = ((FIDO_OK, olen, []), w)"
| "manifest_loop (m_func # nxt) ilen olen w =
     (case m_func olen (ilen - olen) w of ((r, curr_olen), w1) \<Rightarrow>
        if r = FIDO_OK then
          (let olen1 = olen + curr_olen;
               c = \<lparr>call_func = m_func, call_cap = ilen - olen, call_ret = r,
                    call_olen = curr_olen, olen_after = olen1\<rparr>
           in if olen1 = ilen then ((FIDO_OK, olen1, [c]), w1)
              else (case manifest_loop nxt ilen olen1 w1 of ((r2, olen2, cs), w2) \<Rightarrow>
                      ((r2, olen2, c # cs), w2)))
        else
          ((r, olen, [\<lparr>call_func = m_func, call_cap = ilen - olen, call_ret = r,
                       call_olen = curr_olen, olen_after = olen\<rparr>]), w1))"

definition fido_dev_info_manifest ::
  "'w dev_manifest_func list \<Rightarrow> size_t \<Rightarrow> 'w \<Rightarrow> (fido_err \<times> size_t \<times> 'w manifest_call list) \<times> 'w" where
  "fido_dev_info_manifest manifest_funcs ilen w = manifest_loop manifest_funcs ilen 0 w"

text \<open>
  A record of calls checked against the registry: the calls are made on the providers in
  order, the first at position \<open>olen\<close> in the world \<open>w\<close>, each with the capacity left
  and in the world the call before it left; each entry holds what its provider returned
  there, and \<^verbatim>\<open>*olen\<close> grows by the count of a call that returned Ok. The result is the
  world after the last call.
\<close>

fun replay ::
  "'w dev_manifest_func list \<Rightarrow> size_t \<Rightarrow> size_t \<Rightarrow> 'w \<Rightarrow> 'w manifest_call list \<Rightarrow> 'w option" where
  "replay fs ilen olen w [] = Some w"
| "replay [] ilen olen w (c # cs) = None"
| "replay (m # fs) ilen olen w (c # cs) =
     (case m olen (ilen - olen) w of ((r, k), w1) \<Rightarrow>
        if call_cap c = ilen - olen \<and> call_ret c = r \<and> call_olen c = k \<and>
           olen_after c = (if r = FIDO_OK then olen + k else olen)
        then replay fs ilen (olen_after c) w1 cs
        else None)"

subsection \<open>Library initialisation and teardown\<close>

text \<open>The platform a build is for: at most one of the four macros is defined.\<close>

datatype platform = LINUX | OSX | WIN | OPENBSD | NO_PLATFORM

text \<open>
  What \<^verbatim>\<open>fido_init\<close> and \<^verbatim>\<open>fido_exit\<close> call and \<^verbatim>\<open>dev.c\<close> does not define: whether
  \<^verbatim>\<open>getenv("FIDO_DEBUG")\<close> is not \<^verbatim>\<open>NULL\<close>, \<^verbatim>\<open>fido_log_init\<close>, hidapi's \<^verbatim>\<open>hid_init\<close> and
  \<^verbatim>\<open>hid_exit\<close>, and the manifest provider of each platform.
\<close>

record 'w lib_env =
  getenv_FIDO_DEBUG :: "'w \<Rightarrow> bool"
  fido_log_init :: "'w \<Rightarrow> 'w"
  hid_init :: "'w \<Rightarrow> int \<times> 'w"
  hid_exit :: "'w \<Rightarrow> 'w"
  hidapi_dev_info_manifest :: "'w dev_manifest_func"
  fido_dev_info_manifest_linux :: "'w dev_manifest_func"
  fido_dev_info_manifest_osx :: "'w dev_manifest_func"
  fido_dev_info_manifest_win :: "'w dev_manifest_func"
  fido_dev_info_manifest_openbsd :: "'w dev_manifest_func"

text \<open>
  Modelled from the spec: the header defining \<^verbatim>\<open>FIDO_DEBUG\<close> is not among the sources; the
  spec says that \<^verbatim>\<open>init(flags)\<close> accepts a bit \<open>Debug\<close>. Its value is taken to be 1; no
  theorem below depends on it.
\<close>

definition FIDO_DEBUG :: int where
  "FIDO_DEBUG = 0x01"

text \<open>
  \<^verbatim>\<open>fido_init\<close>, for a build on platform \<open>pf\<close>, with or without \<^verbatim>\<open>USE_HIDAPI\<close>. It
  registers the platform's provider and drops the status of the registration. The result
  is \<open>None\<close> when \<^verbatim>\<open>errx\<close> ends the process.
\<close>

definition fido_init ::
  "platform \<Rightarrow> bool \<Rightarrow> 'w lib_env \<Rightarrow> bool \<Rightarrow> int \<Rightarrow> 'w dev_manifest_func list \<Rightarrow> 'w \<Rightarrow>
     ('w dev_manifest_func list \<times> 'w) option" where
  "fido_init pf use_hidapi le calloc_ok flgs manifest_funcs w =
     (let w1 = (if flgs AND FIDO_DEBUG \<noteq> 0 \<or> getenv_FIDO_DEBUG le w then fido_log_init le w else w)
      in case pf of
        LINUX \<Rightarrow>
          (if use_hidapi then
             (let fs = snd (fido_dev_register_manifest_func calloc_ok (hidapi_dev_info_manifest le)
                              manifest_funcs)
              in case hid_init le w1 of (r, w2) \<Rightarrow> if r \<noteq> 0 then None else Some (fs, w2))
           else
             Some (snd (fido_dev_register_manifest_func calloc_ok (fido_dev_info_manifest_linux le)
                          manifest_funcs), w1))
      | OSX \<Rightarrow>
          Some (snd (fido_dev_register_manifest_func calloc_ok (fido_dev_info_manifest_osx le)
                       manifest_funcs), w1)
      | WIN \<Rightarrow>
          Some (snd (fido_dev_register_manifest_func calloc_ok (fido_dev_info_manifest_win le)
                       manifest_funcs), w1)
      | OPENBSD \<Rightarrow>
          Some (snd (fido_dev_register_manifest_func calloc_ok (fido_dev_info_manifest_openbsd le)
                       manifest_funcs), w1)
      | NO_PLATFORM \<Rightarrow> Some (manifest_funcs, w1))"

text \<open>
  The provider that the conditional compilation of \<^verbatim>\<open>fido_init\<close> selects: hidapi's in
  a Linux build with \<^verbatim>\<open>USE_HIDAPI\<close>, the platform's own otherwise, none in a build for
  no platform.
\<close>

definition platform_provider :: "platform \<Rightarrow> bool \<Rightarrow> 'w lib_env \<Rightarrow> 'w dev_manifest_func option" where
  "platform_provider pf use_hidapi le =
     (case pf of
        LINUX \<Rightarrow> Some (if use_hidapi then hidapi_dev_info_manifest le
                       else fido_dev_info_manifest_linux le)
      | OSX \<Rightarrow> Some (fido_dev_info_manifest_osx le)
      | WIN \<Rightarrow> Some (fido_dev_info_manifest_win le)
      | OPENBSD \<Rightarrow> Some (fido_dev_info_manifest_openbsd le)
      | NO_PLATFORM \<Rightarrow> None)"

text \<open>
  The loop of \<^verbatim>\<open>fido_exit\<close>: it frees the node \<^verbatim>\<open>curr\<close> and goes to the next one, until
  \<^verbatim>\<open>curr\<close> is \<^verbatim>\<open>NULL\<close>. It returns the number of nodes freed.
\<close>

fun free_nodes :: "'a list \<Rightarrow> nat" where
  "free_nodes [] = 0"
| "free_nodes (node # nxt) = Suc (free_nodes nxt)"

text \<open>
  \<^verbatim>\<open>fido_exit\<close>: after the loop \<^verbatim>\<open>manifest_funcs\<close> is set to \<^verbatim>\<open>NULL\<close>. The result is the
  registry, the number of nodes freed and the world.
\<close>

definition fido_exit ::
  "bool \<Rightarrow> 'w lib_env \<Rightarrow> 'w dev_manifest_func list \<Rightarrow> 'w \<Rightarrow> ('w dev_manifest_func list \<times> nat) \<times> 'w" where
  "fido_exit use_hidapi le manifest_funcs w =
     (let w1 = (if use_hidapi then hid_exit le w else w);
          freed = free_nodes manifest_funcs
      in (([], freed), w1))"

subsection \<open>The sessions the library produces\<close>

text \<open>
  \<^verbatim>\<open>fido_dev_t\<close> is written by the functions of \<^verbatim>\<open>dev.c\<close> only: a session is what
  \<^verbatim>\<open>fido_dev_new\<close> or \<^verbatim>\<open>fido_dev_new_with_info\<close> returned, after any number of calls of
  the functions that write to it. (\<^verbatim>\<open>fido_dev_cancel\<close> and the readers do not write.)
\<close>

inductive reachable :: "('h, 'w) fido_dev \<Rightarrow> bool" where
  new: "fido_dev_new calloc_ok info h = Some d \<Longrightarrow> reachable d"
| new_with_info: "fido_dev_new_with_info calloc_ok copy_ok strdup di = Some d \<Longrightarrow> reachable d"
| opened: "reachable d \<Longrightarrow> fido_dev_open fuzz env d pth w = Some ((r, d'), w') \<Longrightarrow> reachable d'"
| opened_with_info:
    "reachable d \<Longrightarrow> fido_dev_open_with_info fuzz env d w = Some ((r, d'), w') \<Longrightarrow> reachable d'"
| closed: "reachable d \<Longrightarrow> fido_dev_close d w = ((r, d'), w') \<Longrightarrow> reachable d'"
| set_io: "reachable d \<Longrightarrow> fido_dev_set_io_functions d iop = (r, d') \<Longrightarrow> reachable d'"
| force_u2f: "reachable d \<Longrightarrow> reachable (fido_dev_force_u2f d)"
| force_fido2: "reachable d \<Longrightarrow> reachable (fido_dev_force_fido2 d)"

subsection \<open>A scripted device\<close>

text \<open>
  Concrete values on which the theorems below are exercised. The world is the list of
  the events that happened, the oldest first; a handle is a number.
\<close>

datatype event =
    Ev_open "string option"
  | Ev_close "nat option"
  | Ev_tx u32 u8 tx_buf
  | Ev_rx u32 u8
  | Ev_manifest nat size_t

definition ex_io :: "(nat, event list) fido_dev_io" where
  "ex_io = \<lparr>io_open = Some (\<lambda>p w. (Some 7, w @ [Ev_open p])),
            io_close = Some (\<lambda>h w. w @ [Ev_close h]),
            io_read = Some (\<lambda>h n ms w. ((0, []), w)),
            io_write = Some (\<lambda>h b w. (int (length b), w))\<rparr>"

text \<open>A session as \<^verbatim>\<open>fido_dev_new\<close> leaves it, with the vtable \<open>ex_io\<close>.\<close>

definition ex_dev :: "(nat, event list) fido_dev" where
  "ex_dev = \<lparr>nonce = 0,
             attr = \<lparr>attr_nonce = 0, attr_cid = 0, protocol = 0, major = 0, minor = 0,
                     build = 0, flags = 0\<rparr>,
             cid = CTAP_CID_BROADCAST,
             io_handle = None,
             dev_info = \<lparr>path = Some ''/dev/hidraw0'', manufacturer = None, product = None,
                         io = ex_io\<rparr>\<rparr>"

text \<open>
  An environment whose random source yields the nonce \<^verbatim>\<open>0x0807060504030201\<close>, whose
  \<^verbatim>\<open>fido_tx\<close> returns \<open>k\<close>, and whose device replies to INIT with the nonce \<open>rn\<close>, the
  channel id \<^verbatim>\<open>0xCAFEBABE\<close>, protocol 2, versions 1/0/0 and flags \<^verbatim>\<open>0x05\<close>.
\<close>

definition ex_env :: "int \<Rightarrow> u64 \<Rightarrow> (nat, event list) env" where
  "ex_env k rn =
     \<lparr>sys_open = (\<lambda>w. (3, w)),
      sys_read = (\<lambda>fd n w. ((8, 0x0807060504030201), w)),
      sys_close = (\<lambda>fd w. w),
      fido_tx = (\<lambda>d c b w. (k, w @ [Ev_tx (cid d) c b])),
      fido_rx = (\<lambda>d c n ms w.
         ((17, \<lparr>attr_nonce = rn, attr_cid = 0xCAFEBABE, protocol = 2, major = 1, minor = 0,
                build = 0, flags = 0x05\<rparr>), w @ [Ev_rx (cid d) c]))\<rparr>"

text \<open>
  What \<^verbatim>\<open>fido_dev_info_new(1)\<close> returns, and HID functions that make \<^verbatim>\<open>fido_dev_new\<close>
  return \<open>ex_dev\<close>.
\<close>

definition ex_info :: "(nat, event list) fido_dev_info" where
  "ex_info = \<lparr>path = Some ''/dev/hidraw0'', manufacturer = None, product = None,
              io = \<lparr>io_open = None, io_close = None, io_read = None, io_write = None\<rparr>\<rparr>"

definition ex_hid :: "(nat, event list) hid" where
  "ex_hid = \<lparr>fido_hid_open = (\<lambda>p w. (Some 7, w @ [Ev_open p])),
             fido_hid_close = (\<lambda>h w. w @ [Ev_close h]),
             fido_hid_read = (\<lambda>h n ms w. ((0, []), w)),
             fido_hid_write = (\<lambda>h b w. (int (length b), w))\<rparr>"

text \<open>
  A manifest provider that logs its number and the position it was given, returns the
  status \<open>r\<close> and reports \<open>k\<close> entries, or as many as the capacity allows.
\<close>

definition ex_provider :: "nat \<Rightarrow> fido_err \<Rightarrow> size_t \<Rightarrow> event list dev_manifest_func" where
  "ex_provider i r k = (\<lambda>off cap w. ((r, min cap k), w @ [Ev_manifest i off]))"

definition ex_lib_env :: "event list lib_env" where
  "ex_lib_env =
     \<lparr>getenv_FIDO_DEBUG = (\<lambda>w. False),
      fido_log_init = (\<lambda>w. w),
      hid_init = (\<lambda>w. (0, w)),
      hid_exit = (\<lambda>w. w),
      hidapi_dev_info_manifest = ex_provider 0 FIDO_OK 1,
      fido_dev_info_manifest_linux = ex_provider 1 FIDO_OK 1,
      fido_dev_info_manifest_osx = ex_provider 2 FIDO_OK 1,
      fido_dev_info_manifest_win = ex_provider 3 FIDO_OK 1,
      fido_dev_info_manifest_openbsd = ex_provider 4 FIDO_OK 1\<rparr>"

section \<open>Properties\<close>

lemmas ex_defs = ex_io_def ex_dev_def ex_env_def

lemmas open_defs = fido_dev_open_def fido_dev_open_wait_def fido_dev_open_with_info_def
  fido_dev_open_wait_with_info_def fido_dev_open_tx_def fido_dev_open_rx_def
  fido_dev_open_rx_fail_def obtain_nonce_def

lemmas const_defs = CTAP_FRAME_INIT_def CTAP_CMD_INIT_def CTAP_CID_BROADCAST_def sizeof_attr_def

subsection \<open>The handshake\<close>

text \<open>
  The first scenario of the spec: the device echoes the nonce; the session is open on the
  channel the device assigned, and the INIT frame went out on the broadcast channel.
\<close>

lemma init_handshake_scenario:
  "fido_dev_open False (ex_env 0 0x0807060504030201) ex_dev (Some ''p'') [] =
     Some ((FIDO_OK,
            ex_dev\<lparr>nonce := 0x0807060504030201,
                   attr := \<lparr>attr_nonce = 0x0807060504030201, attr_cid = 0xCAFEBABE, protocol = 2,
                            major = 1, minor = 0, build = 0, flags = 0x05\<rparr>,
                   cid := 0xCAFEBABE, io_handle := Some 7\<rparr>),
           [Ev_open (Some ''p''), Ev_tx 0xFFFFFFFF 0x86 (Buf_nonce 0x0807060504030201),
            Ev_rx 0xFFFFFFFF 0x86])"
  by (simp add: ex_defs open_defs const_defs)

text \<open>What a successful first half guarantees, and what a failed one leaves.\<close>

lemma open_tx_ok:
  "fido_dev_open_tx env dev pth w = ((FIDO_OK, d), w') \<Longrightarrow>
     io_handle d \<noteq> None \<and> io_close (io (dev_info d)) \<noteq> None \<and> io_open (io (dev_info d)) \<noteq> None \<and>
     dev_info d = dev_info dev \<and> io_handle dev = None \<and> cid d = cid dev \<and> attr d = attr dev"
  by (auto simp: fido_dev_open_tx_def Let_def split: option.splits prod.splits if_splits)

lemma open_tx_error_handle:
  "io_handle dev = None \<Longrightarrow> fido_dev_open_tx env dev pth w = ((r, d), w') \<Longrightarrow> r \<noteq> FIDO_OK \<Longrightarrow>
     io_handle d = None"
  by (auto simp: fido_dev_open_tx_def Let_def split: option.splits prod.splits if_splits)

lemma open_rx_fail_handle:
  "fido_dev_open_rx_fail dev w = Some ((r, d), w') \<Longrightarrow> r = FIDO_ERR_RX \<and> io_handle d = None"
  by (auto simp: fido_dev_open_rx_fail_def split: option.splits)

lemma open_rx_error_handle:
  "fido_dev_open_rx fuzz env dev ms w = Some ((r, d), w') \<Longrightarrow> r \<noteq> FIDO_OK \<Longrightarrow> io_handle d = None"
  by (auto simp: fido_dev_open_rx_def Let_def split: prod.splits if_splits
      dest: open_rx_fail_handle)

text \<open>The second half calls \<^verbatim>\<open>close\<close> unchecked; after the first half it is not \<^verbatim>\<open>NULL\<close>.\<close>

lemma open_rx_total:
  "io_close (io (dev_info dev)) \<noteq> None \<Longrightarrow> fido_dev_open_rx fuzz env dev ms w \<noteq> None"
  by (auto simp: fido_dev_open_rx_def fido_dev_open_rx_fail_def Let_def
      split: prod.splits if_splits option.splits)

lemma open_wait_total: "fido_dev_open_wait fuzz env dev pth ms w \<noteq> None"
proof -
  obtain r d w1 where tx: "fido_dev_open_tx env dev pth w = ((r, d), w1)"
    by (metis prod.exhaust)
  show ?thesis
  proof (cases "r = FIDO_OK")
    case True
    with tx have "io_close (io (dev_info d)) \<noteq> None"
      by (auto dest: open_tx_ok)
    then have "fido_dev_open_rx fuzz env d ms w1 \<noteq> None"
      by (rule open_rx_total)
    with tx True show ?thesis
      by (auto simp: fido_dev_open_wait_def split: option.splits)
  next
    case False
    with tx show ?thesis
      by (simp add: fido_dev_open_wait_def)
  qed
qed

lemma open_wait_error_handle:
  assumes "io_handle dev = None"
    and "fido_dev_open_wait fuzz env dev pth ms w = Some ((r, d), w')"
    and "r \<noteq> FIDO_OK"
  shows "io_handle d = None"
proof -
  obtain r1 d1 w1 where tx: "fido_dev_open_tx env dev pth w = ((r1, d1), w1)"
    by (metis prod.exhaust)
  show ?thesis
  proof (cases "r1 = FIDO_OK")
    case True
    with tx assms(2,3) obtain r2 where "fido_dev_open_rx fuzz env d1 ms w1 = Some ((r2, d), w')"
      and "r2 \<noteq> FIDO_OK"
      by (auto simp: fido_dev_open_wait_def split: option.splits if_splits)
    then show ?thesis
      by (rule open_rx_error_handle)
  next
    case False
    with tx assms(2) have "r = r1" "d = d1"
      by (auto simp: fido_dev_open_wait_def)
    with tx assms(1) False show ?thesis
      by (auto dest: open_tx_error_handle)
  qed
qed

lemma open_wait_with_info_eq:
  "fido_dev_open_wait_with_info fuzz env dev ms w =
     fido_dev_open_wait fuzz env dev (path (dev_info dev)) ms w"
  by (simp add: fido_dev_open_wait_with_info_def fido_dev_open_wait_def)

text \<open>
  C1. In a build without \<^verbatim>\<open>FIDO_FUZZ\<close>: when the first half of \<^verbatim>\<open>fido_dev_open\<close> has
  opened the device and sent the nonce, and the reply received has another nonce than the
  one sent, or has not the size of the attribute structure, then \<^verbatim>\<open>fido_dev_open\<close>
  returns the Rx error, the vtable's \<^verbatim>\<open>close\<close> has been called on the handle, and the
  session's handle is \<^verbatim>\<open>NULL\<close>.
\<close>

theorem open_rejects_bad_nonce:
  assumes tx: "fido_dev_open_tx env dev pth w = ((FIDO_OK, dev1), w1)"
    and rx: "fido_rx env dev1 (CTAP_FRAME_INIT OR CTAP_CMD_INIT) sizeof_attr (-1) w1 = ((n, a), w2)"
    and bad: "attr_nonce a \<noteq> nonce dev1 \<or> n \<noteq> int sizeof_attr"
  shows "\<exists>cls h. io_close (io (dev_info dev1)) = Some cls \<and> io_handle dev1 = Some h \<and>
           fido_dev_open False env dev pth w =
             Some ((FIDO_ERR_RX, dev1\<lparr>attr := a, io_handle := None\<rparr>), cls (Some h) w2)"
proof -
  from tx obtain cls h where cls: "io_close (io (dev_info dev1)) = Some cls"
    and h: "io_handle dev1 = Some h"
    by (auto simp: fido_dev_open_tx_def Let_def split: option.splits prod.splits if_splits)
  have fail: "fido_dev_open_rx_fail (dev1\<lparr>attr := a\<rparr>) w2 =
      Some ((FIDO_ERR_RX, dev1\<lparr>attr := a, io_handle := None\<rparr>), cls (Some h) w2)"
    using cls h by (simp add: fido_dev_open_rx_fail_def)
  from bad have "n < 0 \<or> nat n \<noteq> sizeof_attr \<or> attr_nonce a \<noteq> nonce dev1"
    by linarith
  then have "fido_dev_open_rx False env dev1 (-1) w1 =
      Some ((FIDO_ERR_RX, dev1\<lparr>attr := a, io_handle := None\<rparr>), cls (Some h) w2)"
    using rx fail by (auto simp: fido_dev_open_rx_def Let_def)
  with tx have "fido_dev_open False env dev pth w =
      Some ((FIDO_ERR_RX, dev1\<lparr>attr := a, io_handle := None\<rparr>), cls (Some h) w2)"
    by (simp add: fido_dev_open_def fido_dev_open_wait_def)
  with cls h show ?thesis
    by blast
qed

theorem open_rejects_bad_nonce_witness:
  "fido_dev_open_tx (ex_env 0 0x1111) ex_dev (Some ''p'') [] =
     ((FIDO_OK, ex_dev\<lparr>nonce := 0x0807060504030201, io_handle := Some 7\<rparr>),
      [Ev_open (Some ''p''), Ev_tx 0xFFFFFFFF 0x86 (Buf_nonce 0x0807060504030201)]) \<and>
   fido_dev_open False (ex_env 0 0x1111) ex_dev (Some ''p'') [] =
     Some ((FIDO_ERR_RX,
            ex_dev\<lparr>nonce := 0x0807060504030201,
                   attr := \<lparr>attr_nonce = 0x1111, attr_cid = 0xCAFEBABE, protocol = 2, major = 1,
                            minor = 0, build = 0, flags = 0x05\<rparr>,
                   io_handle := None\<rparr>),
           [Ev_open (Some ''p''), Ev_tx 0xFFFFFFFF 0x86 (Buf_nonce 0x0807060504030201),
            Ev_rx 0xFFFFFFFF 0x86, Ev_close (Some 7)])"
proof -
  let ?d1 = "ex_dev\<lparr>nonce := 0x0807060504030201, io_handle := Some 7\<rparr>"
  let ?w1 = "[Ev_open (Some ''p''), Ev_tx 0xFFFFFFFF 0x86 (Buf_nonce 0x0807060504030201)]"
  let ?a = "\<lparr>attr_nonce = 0x1111, attr_cid = 0xCAFEBABE, protocol = 2, major = 1,
             minor = 0, build = 0, flags = 0x05\<rparr>"
  have tx: "fido_dev_open_tx (ex_env 0 0x1111) ex_dev (Some ''p'') [] = ((FIDO_OK, ?d1), ?w1)"
    by (simp add: ex_defs open_defs const_defs)
  have rx: "fido_rx (ex_env 0 0x1111) ?d1 (CTAP_FRAME_INIT OR CTAP_CMD_INIT) sizeof_attr (-1) ?w1 =
      ((17, ?a), ?w1 @ [Ev_rx 0xFFFFFFFF 0x86])"
    by (simp add: ex_defs const_defs)
  have bad: "attr_nonce ?a \<noteq> nonce ?d1 \<or> (17::int) \<noteq> int sizeof_attr"
    by (simp add: ex_defs)
  from open_rejects_bad_nonce [OF tx rx bad] tx show ?thesis
    by (auto simp: ex_defs)
qed

text \<open>
  C4. On a session whose handle is \<^verbatim>\<open>NULL\<close>, \<^verbatim>\<open>fido_dev_open\<close> and
  \<^verbatim>\<open>fido_dev_open_with_info\<close> return, and whenever the status returned is not Ok the
  session's handle is \<^verbatim>\<open>NULL\<close> afterwards.
\<close>

theorem open_error_leaves_handle_null:
  assumes "io_handle dev = None"
  shows "(\<exists>r d w'. fido_dev_open fuzz env dev pth w = Some ((r, d), w') \<and>
            (r \<noteq> FIDO_OK \<longrightarrow> io_handle d = None)) \<and>
         (\<exists>r d w'. fido_dev_open_with_info fuzz env dev w = Some ((r, d), w') \<and>
            (r \<noteq> FIDO_OK \<longrightarrow> io_handle d = None))"
proof -
  have *: "\<exists>r d w'. fido_dev_open_wait fuzz env dev p (-1) w = Some ((r, d), w') \<and>
            (r \<noteq> FIDO_OK \<longrightarrow> io_handle d = None)" for p
  proof -
    from open_wait_total [of fuzz env dev p "-1" w]
    obtain r d w' where res: "fido_dev_open_wait fuzz env dev p (-1) w = Some ((r, d), w')"
      by auto
    with assms have "r \<noteq> FIDO_OK \<longrightarrow> io_handle d = None"
      by (auto dest: open_wait_error_handle)
    with res show ?thesis
      by blast
  qed
  show ?thesis
    using * [of pth] * [of "path (dev_info dev)"]
    by (simp add: fido_dev_open_def fido_dev_open_with_info_def open_wait_with_info_eq)
qed

theorem open_error_leaves_handle_null_witness:
  "io_handle ex_dev = None \<and>
   fido_dev_open False (ex_env (-1) 0) ex_dev (Some ''p'') [] =
     Some ((FIDO_ERR_TX, ex_dev\<lparr>nonce := 0x0807060504030201\<rparr>),
           [Ev_open (Some ''p''), Ev_tx 0xFFFFFFFF 0x86 (Buf_nonce 0x0807060504030201),
            Ev_close (Some 7)]) \<and>
   FIDO_ERR_TX \<noteq> FIDO_OK \<and>
   io_handle (ex_dev\<lparr>nonce := 0x0807060504030201\<rparr>) = None"
  using open_error_leaves_handle_null [of ex_dev False "ex_env (-1) 0" "Some ''p''" "[]"]
  by (simp add: ex_defs open_defs const_defs)

text \<open>
  C5. On a session whose handle is not \<^verbatim>\<open>NULL\<close>, \<^verbatim>\<open>fido_dev_open\<close> returns the
  invalid-argument error and neither the session (handle, channel id, attributes and all
  other fields) nor the world has changed; the same holds of \<^verbatim>\<open>fido_dev_open_with_info\<close>.
\<close>

theorem second_open_refused:
  "io_handle dev \<noteq> None \<Longrightarrow>
     fido_dev_open fuzz env dev pth w = Some ((FIDO_ERR_INVALID_ARGUMENT, dev), w) \<and>
     fido_dev_open_with_info fuzz env dev w = Some ((FIDO_ERR_INVALID_ARGUMENT, dev), w)"
  by (simp add: fido_dev_open_def fido_dev_open_wait_def fido_dev_open_with_info_def
      fido_dev_open_wait_with_info_def fido_dev_open_tx_def)

theorem second_open_refused_witness:
  "io_handle (ex_dev\<lparr>cid := 0xCAFEBABE, io_handle := Some 7\<rparr>) \<noteq> None \<and>
   fido_dev_open False (ex_env 0 0x0807060504030201) (ex_dev\<lparr>cid := 0xCAFEBABE, io_handle := Some 7\<rparr>)
       (Some ''p'') [Ev_open (Some ''p'')] =
     Some ((FIDO_ERR_INVALID_ARGUMENT, ex_dev\<lparr>cid := 0xCAFEBABE, io_handle := Some 7\<rparr>),
           [Ev_open (Some ''p'')])"
  using second_open_refused [of "ex_dev\<lparr>cid := 0xCAFEBABE, io_handle := Some 7\<rparr>" False
      "ex_env 0 0x0807060504030201" "Some ''p''" "[Ev_open (Some ''p'')]"]
  by simp

subsection \<open>Cancel, vtable, close\<close>






text \<open>
  C7. On a session with an open handle \<^verbatim>\<open>fido_dev_set_io_functions\<close> returns the
  invalid-argument error and the session, its vtable included, is unchanged. Without a
  handle, and given a vtable whose four functions are not \<^verbatim>\<open>NULL\<close>, it returns Ok and the
  session's vtable is the one given; nothing else in the session changes.
\<close>

theorem set_io_functions_guarded:
  "(io_handle dev \<noteq> None \<longrightarrow>
      fido_dev_set_io_functions dev iop = (FIDO_ERR_INVALID_ARGUMENT, dev)) \<and>
   (io_handle dev = None \<and> io_open v \<noteq> None \<and> io_close v \<noteq> None \<and> io_read v \<noteq> None \<and>
    io_write v \<noteq> None \<longrightarrow>
      fido_dev_set_io_functions dev (Some v) = (FIDO_OK, dev\<lparr>dev_info := (dev_info dev)\<lparr>io := v\<rparr>\<rparr>) \<and>
      io (dev_info (snd (fido_dev_set_io_functions dev (Some v)))) = v)"
  by (simp add: fido_dev_set_io_functions_def)

theorem set_io_functions_guarded_witness:
  "io_handle (ex_dev\<lparr>io_handle := Some 7\<rparr>) \<noteq> None \<and>
   fido_dev_set_io_functions (ex_dev\<lparr>io_handle := Some 7\<rparr>) (Some (ex_io\<lparr>io_read := io_read ex_io\<rparr>)) =
     (FIDO_ERR_INVALID_ARGUMENT, ex_dev\<lparr>io_handle := Some 7\<rparr>) \<and>
   io_handle ex_dev = None \<and>
   io_open ex_io \<noteq> None \<and> io_close ex_io \<noteq> None \<and> io_read ex_io \<noteq> None \<and> io_write ex_io \<noteq> None \<and>
   fido_dev_set_io_functions (ex_dev\<lparr>dev_info := ex_info\<rparr>) (Some ex_io) = (FIDO_OK, ex_dev)"
  using set_io_functions_guarded [of "ex_dev\<lparr>io_handle := Some 7\<rparr>"
      "Some (ex_io\<lparr>io_read := io_read ex_io\<rparr>)" ex_io]
    set_io_functions_guarded [of "ex_dev\<lparr>dev_info := ex_info\<rparr>" "Some ex_io" ex_io]
  by (simp add: ex_defs ex_info_def)

text \<open>The functions that open a session do not write to its device information.\<close>

lemma open_tx_dev_info: "fido_dev_open_tx env dev pth w = ((r, d), w') \<Longrightarrow> dev_info d = dev_info dev"
  by (auto simp: fido_dev_open_tx_def Let_def split: option.splits prod.splits if_splits)

lemma open_rx_dev_info:
  "fido_dev_open_rx fuzz env dev ms w = Some ((r, d), w') \<Longrightarrow> dev_info d = dev_info dev"
  by (auto simp: fido_dev_open_rx_def fido_dev_open_rx_fail_def Let_def
      split: prod.splits if_splits option.splits)

lemma open_wait_dev_info:
  assumes "fido_dev_open_wait fuzz env dev pth ms w = Some ((r, d), w')"
  shows "dev_info d = dev_info dev"
proof -
  obtain r1 d1 w1 where tx: "fido_dev_open_tx env dev pth w = ((r1, d1), w1)"
    by (metis prod.exhaust)
  then have i1: "dev_info d1 = dev_info dev"
    by (rule open_tx_dev_info)
  show ?thesis
  proof (cases "r1 = FIDO_OK")
    case True
    with tx assms obtain r2 where "fido_dev_open_rx fuzz env d1 ms w1 = Some ((r2, d), w')"
      by (auto simp: fido_dev_open_wait_def split: option.splits if_splits)
    then have "dev_info d = dev_info d1"
      by (rule open_rx_dev_info)
    with i1 show ?thesis by simp
  next
    case False
    with tx assms have "d = d1"
      by (auto simp: fido_dev_open_wait_def)
    with i1 show ?thesis by simp
  qed
qed

lemma reachable_has_close: "reachable dev \<Longrightarrow> io_close (io (dev_info dev)) \<noteq> None"
proof (induction rule: reachable.induct)
  case (new calloc_ok info h d)
  then show ?case
    by (auto simp: fido_dev_new_def split: if_splits option.splits)
next
  case (new_with_info calloc_ok copy_ok strdup di d)
  then show ?case
    by (auto simp: fido_dev_new_with_info_def copy_fido_dev_info_def split: if_splits option.splits)
next
  case (opened d fuzz env pth w r d' w')
  from opened.hyps(2) have "dev_info d' = dev_info d"
    unfolding fido_dev_open_def by (rule open_wait_dev_info)
  with opened.IH show ?case by simp
next
  case (opened_with_info d fuzz env w r d' w')
  from opened_with_info.hyps(2) have "dev_info d' = dev_info d"
    unfolding fido_dev_open_with_info_def open_wait_with_info_eq by (rule open_wait_dev_info)
  with opened_with_info.IH show ?case by simp
next
  case (closed d w r d' w')
  then show ?case
    by (auto simp: fido_dev_close_def split: if_splits option.splits)
next
  case (set_io d iop r d')
  then show ?case
    by (auto simp: fido_dev_set_io_functions_def split: if_splits option.splits)
next
  case (force_u2f d)
  then show ?case by (simp add: fido_dev_force_u2f_def)
next
  case (force_fido2 d)
  then show ?case by (simp add: fido_dev_force_fido2_def)
qed

text \<open>
  C8. On a session of the library, \<^verbatim>\<open>fido_dev_close\<close> with an open handle calls the
  vtable's \<^verbatim>\<open>close\<close> on the handle, returns Ok, and the session's handle is \<^verbatim>\<open>NULL\<close>
  afterwards; with no open handle it returns the invalid-argument error and changes
  nothing, neither in the session nor in the world. (The second test of the function,
  for a \<^verbatim>\<open>NULL\<close> \<^verbatim>\<open>close\<close>, never fires on such a session.)
\<close>

theorem close_releases_handle:
  assumes "reachable dev"
  shows "(io_handle dev \<noteq> None \<longrightarrow>
            (\<exists>cls. io_close (io (dev_info dev)) = Some cls \<and>
               fido_dev_close dev w = ((FIDO_OK, dev\<lparr>io_handle := None\<rparr>), cls (io_handle dev) w)) \<and>
            fst (fst (fido_dev_close dev w)) = FIDO_OK \<and>
            io_handle (snd (fst (fido_dev_close dev w))) = None) \<and>
         (io_handle dev = None \<longrightarrow> fido_dev_close dev w = ((FIDO_ERR_INVALID_ARGUMENT, dev), w))"
proof -
  from assms obtain cls where "io_close (io (dev_info dev)) = Some cls"
    by (auto dest: reachable_has_close)
  then show ?thesis
    by (simp add: fido_dev_close_def)
qed

theorem close_releases_handle_witness:
  "fido_dev_new True (Some ex_info) ex_hid = Some ex_dev \<and>
   io_handle ex_dev = None \<and>
   fido_dev_close ex_dev [] = ((FIDO_ERR_INVALID_ARGUMENT, ex_dev), []) \<and>
   fido_dev_close
     (ex_dev\<lparr>nonce := 0x0807060504030201,
             attr := \<lparr>attr_nonce = 0x0807060504030201, attr_cid = 0xCAFEBABE, protocol = 2,
                      major = 1, minor = 0, build = 0, flags = 0x05\<rparr>,
             cid := 0xCAFEBABE, io_handle := Some 7\<rparr>) [] =
     ((FIDO_OK,
       ex_dev\<lparr>nonce := 0x0807060504030201,
              attr := \<lparr>attr_nonce = 0x0807060504030201, attr_cid = 0xCAFEBABE, protocol = 2,
                       major = 1, minor = 0, build = 0, flags = 0x05\<rparr>,
              cid := 0xCAFEBABE, io_handle := None\<rparr>),
      [Ev_close (Some 7)])"
proof -
  let ?d = "ex_dev\<lparr>nonce := 0x0807060504030201,
             attr := \<lparr>attr_nonce = 0x0807060504030201, attr_cid = 0xCAFEBABE, protocol = 2,
                      major = 1, minor = 0, build = 0, flags = 0x05\<rparr>,
             cid := 0xCAFEBABE, io_handle := Some 7\<rparr>"
  have new: "fido_dev_new True (Some ex_info) ex_hid = Some ex_dev"
    by (simp add: fido_dev_new_def ex_defs ex_info_def ex_hid_def)
  then have r0: "reachable ex_dev"
    by (rule reachable.new)
  from r0 init_handshake_scenario have r1: "reachable ?d"
    by (rule reachable.opened)
  have h0: "io_handle ex_dev = None"
    by (simp add: ex_dev_def)
  have h1: "io_handle ?d \<noteq> None"
    by simp
  from close_releases_handle [OF r0, of "[]"] h0
  have c0: "fido_dev_close ex_dev [] = ((FIDO_ERR_INVALID_ARGUMENT, ex_dev), [])"
    by blast
  from close_releases_handle [OF r1, of "[]"] h1
  obtain cls where cls: "io_close (io (dev_info ?d)) = Some cls"
    and cl: "fido_dev_close ?d [] = ((FIDO_OK, ?d\<lparr>io_handle := None\<rparr>), cls (io_handle ?d) [])"
    by blast
  from cls have "cls = (\<lambda>h w. w @ [Ev_close h])"
    by (simp add: ex_defs)
  with cl have c1: "fido_dev_close ?d [] = ((FIDO_OK, ?d\<lparr>io_handle := None\<rparr>), [Ev_close (Some 7)])"
    by simp
  from new h0 c0 c1 show ?thesis
    by simp
qed

text \<open>
  A session opened by \<^verbatim>\<open>fido_dev_open\<close> has a \<^verbatim>\<open>close\<close> function, so closing it succeeds.
\<close>

lemma close_after_open:
  assumes "fido_dev_open fuzz env dev pth w = Some ((FIDO_OK, d), w')"
  shows "\<exists>w''. fido_dev_close d w' = ((FIDO_OK, d\<lparr>io_handle := None\<rparr>), w'')"
proof -
  obtain r1 d1 w1 where tx: "fido_dev_open_tx env dev pth w = ((r1, d1), w1)"
    by (metis prod.exhaust)
  with assms have ok: "r1 = FIDO_OK"
    and rx: "fido_dev_open_rx fuzz env d1 (-1) w1 = Some ((FIDO_OK, d), w')"
    by (auto simp: fido_dev_open_def fido_dev_open_wait_def split: option.splits if_splits)
  from tx ok have "io_handle d1 \<noteq> None" "io_close (io (dev_info d1)) \<noteq> None"
    by (auto dest: open_tx_ok)
  with rx have "io_handle d \<noteq> None" "io_close (io (dev_info d)) \<noteq> None"
    by (auto simp: fido_dev_open_rx_def fido_dev_open_rx_fail_def Let_def
        split: prod.splits if_splits option.splits)
  then show ?thesis
    by (auto simp: fido_dev_close_def split: option.splits)
qed

subsection \<open>Capabilities\<close>

lemma bit_cbor: "bit FIDO_CAP_CBOR n = (n = 2)"
proof -
  have "FIDO_CAP_CBOR = 2 ^ 2"
    by (simp add: FIDO_CAP_CBOR_def)
  then have "bit FIDO_CAP_CBOR n = bit (2 ^ 2 :: u8) n"
    by (rule arg_cong)
  also have "\<dots> = (n = 2)"
    by (simp only: bit_exp_iff) auto
  finally show ?thesis .
qed

lemma cbor_bit: "(x AND FIDO_CAP_CBOR \<noteq> 0) = bit x 2" for x :: u8
proof
  assume nz: "x AND FIDO_CAP_CBOR \<noteq> 0"
  show "bit x 2"
  proof (rule ccontr)
    assume "\<not> bit x 2"
    then have "x AND FIDO_CAP_CBOR = 0"
      by (intro bit_word_eqI) (auto simp: bit_and_iff bit_cbor)
    with nz show False
      by simp
  qed
next
  assume "bit x 2"
  then have "bit (x AND FIDO_CAP_CBOR) 2"
    by (simp add: bit_and_iff bit_cbor)
  then show "x AND FIDO_CAP_CBOR \<noteq> 0"
    by auto
qed

lemma is_fido2_bit: "fido_dev_is_fido2 dev = bit (flags (attr dev)) 2"
  by (simp add: fido_dev_is_fido2_def cbor_bit)

lemma force_u2f_bits:
  "bit (flags (attr (fido_dev_force_u2f dev))) n = (n \<noteq> 2 \<and> bit (flags (attr dev)) n)"
  by (auto simp: fido_dev_force_u2f_def bit_and_iff bit_not_iff bit_cbor dest: bit_imp_le_length)

lemma force_fido2_bits:
  "bit (flags (attr (fido_dev_force_fido2 dev))) n = (n = 2 \<or> bit (flags (attr dev)) n)"
  by (auto simp: fido_dev_force_fido2_def bit_or_iff bit_cbor)

text \<open>
  C9. \<^verbatim>\<open>fido_dev_is_fido2\<close> is true exactly when the CBOR bit (bit 2, of value 4) of the
  flags is set. After \<^verbatim>\<open>fido_dev_force_u2f\<close> it is false, after \<^verbatim>\<open>fido_dev_force_fido2\<close>
  true. Each of the two is idempotent, leaves every other bit of the flags as it was, and
  changes no other field: putting the old flags back gives the old session.
\<close>

theorem force_u2f_fido2_cbor_bit:
  "fido_dev_is_fido2 dev = bit (flags (attr dev)) 2 \<and>
   \<not> fido_dev_is_fido2 (fido_dev_force_u2f dev) \<and>
   fido_dev_is_fido2 (fido_dev_force_fido2 dev) \<and>
   fido_dev_force_u2f (fido_dev_force_u2f dev) = fido_dev_force_u2f dev \<and>
   fido_dev_force_fido2 (fido_dev_force_fido2 dev) = fido_dev_force_fido2 dev \<and>
   (\<forall>n. bit (flags (attr (fido_dev_force_u2f dev))) n = (n \<noteq> 2 \<and> bit (flags (attr dev)) n)) \<and>
   (\<forall>n. bit (flags (attr (fido_dev_force_fido2 dev))) n = (n = 2 \<or> bit (flags (attr dev)) n)) \<and>
   (fido_dev_force_u2f dev)\<lparr>attr := (attr (fido_dev_force_u2f dev))\<lparr>flags := flags (attr dev)\<rparr>\<rparr> = dev \<and>
   (fido_dev_force_fido2 dev)\<lparr>attr := (attr (fido_dev_force_fido2 dev))\<lparr>flags := flags (attr dev)\<rparr>\<rparr> = dev"
proof (intro conjI allI)
  show "fido_dev_is_fido2 dev = bit (flags (attr dev)) 2"
    by (rule is_fido2_bit)
  show "\<not> fido_dev_is_fido2 (fido_dev_force_u2f dev)"
    by (simp add: is_fido2_bit force_u2f_bits)
  show "fido_dev_is_fido2 (fido_dev_force_fido2 dev)"
    by (simp add: is_fido2_bit force_fido2_bits)
  show "fido_dev_force_u2f (fido_dev_force_u2f dev) = fido_dev_force_u2f dev"
    by (simp add: fido_dev_force_u2f_def and.assoc)
  show "fido_dev_force_fido2 (fido_dev_force_fido2 dev) = fido_dev_force_fido2 dev"
    by (simp add: fido_dev_force_fido2_def or.assoc)
  show "bit (flags (attr (fido_dev_force_u2f dev))) n = (n \<noteq> 2 \<and> bit (flags (attr dev)) n)" for n
    by (rule force_u2f_bits)
  show "bit (flags (attr (fido_dev_force_fido2 dev))) n = (n = 2 \<or> bit (flags (attr dev)) n)" for n
    by (rule force_fido2_bits)
  show "(fido_dev_force_u2f dev)\<lparr>attr := (attr (fido_dev_force_u2f dev))\<lparr>flags := flags (attr dev)\<rparr>\<rparr> = dev"
    by (simp add: fido_dev_force_u2f_def)
  show "(fido_dev_force_fido2 dev)\<lparr>attr := (attr (fido_dev_force_fido2 dev))\<lparr>flags := flags (attr dev)\<rparr>\<rparr> = dev"
    by (simp add: fido_dev_force_fido2_def)
qed

theorem force_u2f_fido2_cbor_bit_witness:
  "fido_dev_is_fido2 (ex_dev\<lparr>attr := (attr ex_dev)\<lparr>flags := 0x05\<rparr>\<rparr>) \<and>
   flags (attr (fido_dev_force_u2f (ex_dev\<lparr>attr := (attr ex_dev)\<lparr>flags := 0x05\<rparr>\<rparr>))) = 0x01 \<and>
   \<not> fido_dev_is_fido2 ex_dev \<and>
   flags (attr (fido_dev_force_fido2 ex_dev)) = 0x04"
proof -
  note inst = force_u2f_fido2_cbor_bit [of "ex_dev\<lparr>attr := (attr ex_dev)\<lparr>flags := 0x05\<rparr>\<rparr>"]
  have "bit (0x05 :: u8) 2"
    by (simp add: numeral_2_eq_2)
  with inst have a: "fido_dev_is_fido2 (ex_dev\<lparr>attr := (attr ex_dev)\<lparr>flags := 0x05\<rparr>\<rparr>)"
    by simp
  have b: "flags (attr (fido_dev_force_u2f (ex_dev\<lparr>attr := (attr ex_dev)\<lparr>flags := 0x05\<rparr>\<rparr>))) = 0x01"
    by (simp add: fido_dev_force_u2f_def FIDO_CAP_CBOR_def)
  have c: "\<not> fido_dev_is_fido2 ex_dev"
    by (simp add: fido_dev_is_fido2_def ex_dev_def)
  have d: "flags (attr (fido_dev_force_fido2 ex_dev)) = 0x04"
    by (simp add: fido_dev_force_fido2_def FIDO_CAP_CBOR_def ex_dev_def)
  from a b c d show ?thesis
    by (intro conjI)
qed

subsection \<open>The registry and the manifest\<close>

text \<open>
  Within the capacity, \<^verbatim>\<open>*olen += curr_olen\<close> does not wrap around.
\<close>

lemma size_t_add_le:
  fixes olen ilen c :: size_t
  assumes "olen \<le> ilen" and "c \<le> ilen - olen"
  shows "olen + c \<le> ilen" and "unat (olen + c) = unat olen + unat c"
proof -
  from assms(1) have sub: "unat (ilen - olen) = unat ilen - unat olen"
    by (simp add: unat_sub)
  from assms(1) have le: "unat olen \<le> unat ilen"
    by (simp add: word_le_nat_alt)
  from assms(2) sub have c: "unat c \<le> unat ilen - unat olen"
    by (simp add: word_le_nat_alt)
  have "unat ilen < 2 ^ LENGTH(64)"
    by (rule unsigned_less)
  with c le have "unat olen + unat c < 2 ^ LENGTH(64)"
    by linarith
  then show eq: "unat (olen + c) = unat olen + unat c"
    by (rule unat_add_lem [THEN iffD1])
  with c le show "olen + c \<le> ilen"
    by (simp add: word_le_nat_alt)
qed

text \<open>The three ways an iteration of the loop can go.\<close>

lemma manifest_loop_Cons_cases:
  assumes "manifest_loop (m # fs) ilen olen0 w = ((r, olen, cs), w')"
  obtains
    (error) c1 where "m olen0 (ilen - olen0) w = ((r, c1), w')" and "r \<noteq> FIDO_OK"
      and "olen = olen0"
      and "cs = [\<lparr>call_func = m, call_cap = ilen - olen0, call_ret = r, call_olen = c1,
                  olen_after = olen0\<rparr>]"
  | (full) c1 where "m olen0 (ilen - olen0) w = ((FIDO_OK, c1), w')" and "r = FIDO_OK"
      and "olen0 + c1 = ilen" and "olen = ilen"
      and "cs = [\<lparr>call_func = m, call_cap = ilen - olen0, call_ret = FIDO_OK, call_olen = c1,
                  olen_after = ilen\<rparr>]"
  | (more) c1 w1 cs2 where "m olen0 (ilen - olen0) w = ((FIDO_OK, c1), w1)"
      and "olen0 + c1 \<noteq> ilen"
      and "manifest_loop fs ilen (olen0 + c1) w1 = ((r, olen, cs2), w')"
      and "cs = \<lparr>call_func = m, call_cap = ilen - olen0, call_ret = FIDO_OK, call_olen = c1,
                 olen_after = olen0 + c1\<rparr> # cs2"
proof -
  obtain r1 c1 w1 where m: "m olen0 (ilen - olen0) w = ((r1, c1), w1)"
    by (metis prod.exhaust)
  show thesis
  proof (cases "r1 = FIDO_OK")
    case False
    with m assms show thesis
      by (intro error [of c1]) auto
  next
    case True
    show thesis
    proof (cases "olen0 + c1 = ilen")
      case True
      with m \<open>r1 = FIDO_OK\<close> assms show thesis
        by (intro full [of c1]) (auto simp: Let_def)
    next
      case False
      obtain r2 o2 cs2 w2 where "manifest_loop fs ilen (olen0 + c1) w1 = ((r2, o2, cs2), w2)"
        by (metis prod.exhaust)
      with m \<open>r1 = FIDO_OK\<close> False assms show thesis
        by (intro more [of c1 w1 cs2]) (auto simp: Let_def)
    qed
  qed
qed

lemma manifest_loop_prefix:
  "manifest_loop fs ilen olen0 w = ((r, olen, cs), w') \<Longrightarrow> prefix (map call_func cs) fs"
proof (induction fs arbitrary: olen0 w cs)
  case Nil
  then show ?case by simp
next
  case (Cons m fs)
  from Cons.prems show ?case
    by (cases rule: manifest_loop_Cons_cases) (auto dest: Cons.IH)
qed

lemma manifest_loop_all:
  "manifest_loop fs ilen olen0 w = ((FIDO_OK, olen, cs), w') \<Longrightarrow> olen \<noteq> ilen \<Longrightarrow>
     map call_func cs = fs"
proof (induction fs arbitrary: olen0 w cs)
  case Nil
  then show ?case by simp
next
  case (Cons m fs)
  from Cons.prems(1) show ?case
    by (cases rule: manifest_loop_Cons_cases) (use Cons.prems(2) in \<open>auto dest: Cons.IH\<close>)
qed

lemma register_all_eq: "register_all regs fs = rev (map snd (filter fst regs)) @ fs"
  by (induction regs fs rule: register_all.induct)
    (auto simp: fido_dev_register_manifest_func_def)

lemma manifest_loop_bound:
  assumes "\<forall>m \<in> set fs. \<forall>off cap w c w'. m off cap w = ((FIDO_OK, c), w') \<longrightarrow> c \<le> cap"
    and "olen0 \<le> ilen"
    and "manifest_loop fs ilen olen0 w = ((r, olen, cs), w')"
  shows "olen \<le> ilen \<and> (\<forall>c \<in> set cs. olen_after c \<le> ilen)"
  using assms
proof (induction fs arbitrary: olen0 w cs)
  case Nil
  then show ?case by simp
next
  case (Cons m fs)
  from Cons.prems(1) have wm: "\<forall>off cap w c w'. m off cap w = ((FIDO_OK, c), w') \<longrightarrow> c \<le> cap"
    and wfs: "\<forall>m \<in> set fs. \<forall>off cap w c w'. m off cap w = ((FIDO_OK, c), w') \<longrightarrow> c \<le> cap"
    by simp_all
  from Cons.prems(3) show ?case
  proof (cases rule: manifest_loop_Cons_cases)
    case (error c1)
    with Cons.prems(2) show ?thesis by simp
  next
    case (full c1)
    then show ?thesis by simp
  next
    case (more c1 w1 cs2)
    from wm more(1) have "c1 \<le> ilen - olen0" by blast
    with Cons.prems(2) have le: "olen0 + c1 \<le> ilen" by (rule size_t_add_le(1))
    from Cons.IH [OF wfs le more(3)] le more(4) show ?thesis by simp
  qed
qed

lemma manifest_loop_butlast:
  "manifest_loop fs ilen olen0 w = ((r, olen, cs), w') \<Longrightarrow>
     \<forall>c \<in> set (butlast cs). call_ret c = FIDO_OK \<and> olen_after c \<noteq> ilen"
proof (induction fs arbitrary: olen0 w cs)
  case Nil
  then show ?case by simp
next
  case (Cons m fs)
  from Cons.prems show ?case
  proof (cases rule: manifest_loop_Cons_cases)
    case (error c1)
    then show ?thesis by simp
  next
    case (full c1)
    then show ?thesis by simp
  next
    case (more c1 w1 cs2)
    from Cons.IH [OF more(3)] more(2,4) show ?thesis by simp
  qed
qed

lemma manifest_loop_error:
  "manifest_loop fs ilen olen0 w = ((r, olen, cs), w') \<Longrightarrow> r \<noteq> FIDO_OK \<Longrightarrow>
     cs \<noteq> [] \<and> call_ret (last cs) = r \<and> olen_after (last cs) = olen"
proof (induction fs arbitrary: olen0 w cs)
  case Nil
  then show ?case by simp
next
  case (Cons m fs)
  from Cons.prems(1) show ?case
  proof (cases rule: manifest_loop_Cons_cases)
    case (error c1)
    then show ?thesis by simp
  next
    case (full c1)
    with Cons.prems(2) show ?thesis by simp
  next
    case (more c1 w1 cs2)
    from Cons.IH [OF more(3) Cons.prems(2)] more(4) show ?thesis by simp
  qed
qed

lemma manifest_loop_sum:
  assumes "\<forall>m \<in> set fs. \<forall>off cap w c w'. m off cap w = ((FIDO_OK, c), w') \<longrightarrow> c \<le> cap"
    and "olen0 \<le> ilen"
    and "manifest_loop fs ilen olen0 w = ((r, olen, cs), w')"
  shows "unat olen = unat olen0 +
           sum_list (map (\<lambda>c. unat (call_olen c)) (filter (\<lambda>c. call_ret c = FIDO_OK) cs))"
  using assms
proof (induction fs arbitrary: olen0 w cs)
  case Nil
  then show ?case by simp
next
  case (Cons m fs)
  from Cons.prems(1) have wm: "\<forall>off cap w c w'. m off cap w = ((FIDO_OK, c), w') \<longrightarrow> c \<le> cap"
    and wfs: "\<forall>m \<in> set fs. \<forall>off cap w c w'. m off cap w = ((FIDO_OK, c), w') \<longrightarrow> c \<le> cap"
    by simp_all
  from Cons.prems(3) show ?case
  proof (cases rule: manifest_loop_Cons_cases)
    case (error c1)
    then show ?thesis by simp
  next
    case (full c1)
    from wm full(1) have "c1 \<le> ilen - olen0" by blast
    with Cons.prems(2) have "unat (olen0 + c1) = unat olen0 + unat c1" by (rule size_t_add_le(2))
    with full show ?thesis by simp
  next
    case (more c1 w1 cs2)
    from wm more(1) have c: "c1 \<le> ilen - olen0" by blast
    with Cons.prems(2) have le: "olen0 + c1 \<le> ilen" by (rule size_t_add_le(1))
    from Cons.prems(2) c have eq: "unat (olen0 + c1) = unat olen0 + unat c1" by (rule size_t_add_le(2))
    from Cons.IH [OF wfs le more(3)] eq more(4) show ?thesis by simp
  qed
qed

lemma filter_ok_butlast:
  assumes "\<forall>c \<in> set (butlast cs). call_ret c = FIDO_OK" and "cs \<noteq> []" and "call_ret (last cs) \<noteq> FIDO_OK"
  shows "filter (\<lambda>c. call_ret c = FIDO_OK) cs = butlast cs"
proof -
  from assms(2) have "cs = butlast cs @ [last cs]" by simp
  then have "filter (\<lambda>c. call_ret c = FIDO_OK) cs =
      filter (\<lambda>c. call_ret c = FIDO_OK) (butlast cs) @ filter (\<lambda>c. call_ret c = FIDO_OK) [last cs]"
    by (metis filter_append)
  with assms(1,3) show ?thesis by simp
qed

lemma ex_provider_wb: "ex_provider i r k off cap w = ((FIDO_OK, c), w') \<Longrightarrow> c \<le> cap"
  by (auto simp: ex_provider_def)

lemma ex_provider_neq: "i \<noteq> j \<Longrightarrow> ex_provider i r k \<noteq> ex_provider j r' k'"
  by (auto simp: ex_provider_def fun_eq_iff)

text \<open>
  C2, as the code has it. \<^verbatim>\<open>fido_dev_register_manifest_func\<close> puts the new provider at
  the head of the registry (and leaves the registry as it was when the allocation fails),
  so after the registrations \<open>f1, ..., fn\<close> the registry is \<open>fn, ..., f1\<close>; and
  \<^verbatim>\<open>fido_dev_info_manifest\<close> calls the providers from the head on: the providers called
  are an initial segment of \<open>fn, ..., f1\<close>, and all of them when it returns Ok with
  \<^verbatim>\<open>*olen\<close> other than \<^verbatim>\<open>ilen\<close>.
\<close>

theorem registration_prepends_manifest_from_head:
  assumes "fido_dev_info_manifest (register_all regs []) ilen w = ((r, olen, cs), w')"
  shows "fido_dev_register_manifest_func True f fs = (FIDO_OK, f # fs) \<and>
         fido_dev_register_manifest_func False f fs = (FIDO_ERR_INTERNAL, fs) \<and>
         register_all regs [] = rev (map snd (filter fst regs)) \<and>
         prefix (map call_func cs) (rev (map snd (filter fst regs))) \<and>
         (r = FIDO_OK \<and> olen \<noteq> ilen \<longrightarrow> map call_func cs = rev (map snd (filter fst regs)))"
proof -
  have reg: "register_all regs [] = rev (map snd (filter fst regs))"
    by (simp add: register_all_eq)
  with assms have loop: "manifest_loop (rev (map snd (filter fst regs))) ilen 0 w = ((r, olen, cs), w')"
    by (simp add: fido_dev_info_manifest_def)
  then have p: "prefix (map call_func cs) (rev (map snd (filter fst regs)))"
    by (rule manifest_loop_prefix)
  from loop have a: "r = FIDO_OK \<and> olen \<noteq> ilen \<longrightarrow> map call_func cs = rev (map snd (filter fst regs))"
    by (auto dest: manifest_loop_all)
  from reg p a show ?thesis
    by (simp add: fido_dev_register_manifest_func_def)
qed

theorem registration_prepends_manifest_from_head_witness:
  "fido_dev_info_manifest
     (register_all [(True, ex_provider 1 FIDO_OK 1), (False, ex_provider 3 FIDO_OK 1),
                    (True, ex_provider 2 FIDO_OK 1)] []) 8 [] =
     ((FIDO_OK, 2,
       [\<lparr>call_func = ex_provider 2 FIDO_OK 1, call_cap = 8, call_ret = FIDO_OK, call_olen = 1,
         olen_after = 1\<rparr>,
        \<lparr>call_func = ex_provider 1 FIDO_OK 1, call_cap = 7, call_ret = FIDO_OK, call_olen = 1,
         olen_after = 2\<rparr>]),
      [Ev_manifest 2 0, Ev_manifest 1 1]) \<and>
   register_all [(True, ex_provider 1 FIDO_OK 1), (False, ex_provider 3 FIDO_OK 1),
                 (True, ex_provider 2 FIDO_OK 1)] [] =
     [ex_provider 2 FIDO_OK 1, ex_provider 1 FIDO_OK 1] \<and>
   (2 :: size_t) \<noteq> 8"
proof -
  let ?regs = "[(True, ex_provider 1 FIDO_OK 1), (False, ex_provider 3 FIDO_OK 1),
                (True, ex_provider 2 FIDO_OK 1)]"
  have run: "fido_dev_info_manifest (register_all ?regs []) 8 [] =
     ((FIDO_OK, 2,
       [\<lparr>call_func = ex_provider 2 FIDO_OK 1, call_cap = 8, call_ret = FIDO_OK, call_olen = 1,
         olen_after = 1\<rparr>,
        \<lparr>call_func = ex_provider 1 FIDO_OK 1, call_cap = 7, call_ret = FIDO_OK, call_olen = 1,
         olen_after = 2\<rparr>]),
      [Ev_manifest 2 0, Ev_manifest 1 1])"
    by (simp add: fido_dev_info_manifest_def fido_dev_register_manifest_func_def ex_provider_def)
  from registration_prepends_manifest_from_head [OF run, of "ex_provider 1 FIDO_OK 1" "[]"]
  have "register_all ?regs [] = rev (map snd (filter fst ?regs))"
    by blast
  then have "register_all ?regs [] = [ex_provider 2 FIDO_OK 1, ex_provider 1 FIDO_OK 1]"
    by (simp add: fido_dev_register_manifest_func_def)
  with run show ?thesis
    by simp
qed

text \<open>
  The claim as the spec words it fails: after registering provider 1 and then provider 2,
  the manifest calls provider 2 first.
\<close>

theorem manifest_insertion_order_counterexample:
  "register_all [(True, ex_provider 1 FIDO_OK 1), (True, ex_provider 2 FIDO_OK 1)] [] =
     [ex_provider 2 FIDO_OK 1, ex_provider 1 FIDO_OK 1] \<and>
   snd (fido_dev_info_manifest
          (register_all [(True, ex_provider 1 FIDO_OK 1), (True, ex_provider 2 FIDO_OK 1)] []) 8 []) =
     [Ev_manifest 2 0, Ev_manifest 1 1] \<and>
   map call_func (snd (snd (fst (fido_dev_info_manifest
          (register_all [(True, ex_provider 1 FIDO_OK 1), (True, ex_provider 2 FIDO_OK 1)] []) 8 [])))) \<noteq>
     [ex_provider 1 FIDO_OK 1, ex_provider 2 FIDO_OK 1]"
proof -
  have reg: "register_all [(True, ex_provider 1 FIDO_OK 1), (True, ex_provider 2 FIDO_OK 1)] [] =
     [ex_provider 2 FIDO_OK 1, ex_provider 1 FIDO_OK 1]"
    by (simp add: fido_dev_register_manifest_func_def)
  have run: "fido_dev_info_manifest [ex_provider 2 FIDO_OK 1, ex_provider 1 FIDO_OK 1] 8 [] =
     ((FIDO_OK, 2,
       [\<lparr>call_func = ex_provider 2 FIDO_OK 1, call_cap = 8, call_ret = FIDO_OK, call_olen = 1,
         olen_after = 1\<rparr>,
        \<lparr>call_func = ex_provider 1 FIDO_OK 1, call_cap = 7, call_ret = FIDO_OK, call_olen = 1,
         olen_after = 2\<rparr>]),
      [Ev_manifest 2 0, Ev_manifest 1 1])"
    by (simp add: fido_dev_info_manifest_def ex_provider_def)
  have "ex_provider 2 FIDO_OK 1 \<noteq> ex_provider 1 FIDO_OK 1"
    by (rule ex_provider_neq) simp
  with reg run show ?thesis
    by simp
qed

lemma manifest_loop_replay:
  "manifest_loop fs ilen olen0 w = ((r, olen, cs), w') \<Longrightarrow> replay fs ilen olen0 w cs = Some w'"
proof (induction fs arbitrary: olen0 w cs)
  case Nil
  then show ?case by simp
next
  case (Cons m fs)
  from Cons.prems show ?case
  proof (cases rule: manifest_loop_Cons_cases)
    case (error c1)
    then show ?thesis by simp
  next
    case (full c1)
    then show ?thesis by simp
  next
    case (more c1 w1 cs2)
    from Cons.IH [OF more(3)] more(1,4) show ?thesis by simp
  qed
qed

lemma manifest_loop_result:
  "manifest_loop fs ilen olen0 w = ((r, olen, cs), w') \<Longrightarrow>
     r = (if cs = [] then FIDO_OK else call_ret (last cs)) \<and>
     olen = (if cs = [] then olen0 else olen_after (last cs))"
proof (induction fs arbitrary: olen0 w cs)
  case Nil
  then show ?case by simp
next
  case (Cons m fs)
  from Cons.prems show ?case
  proof (cases rule: manifest_loop_Cons_cases)
    case (error c1)
    then show ?thesis by simp
  next
    case (full c1)
    then show ?thesis by simp
  next
    case (more c1 w1 cs2)
    from Cons.IH [OF more(3)] more(4) show ?thesis by simp
  qed
qed

lemma manifest_loop_stop:
  "manifest_loop fs ilen olen0 w = ((r, olen, cs), w') \<Longrightarrow> length cs < length fs \<Longrightarrow>
     cs \<noteq> [] \<and> (call_ret (last cs) \<noteq> FIDO_OK \<or> olen_after (last cs) = ilen)"
proof (induction fs arbitrary: olen0 w cs)
  case Nil
  then show ?case by simp
next
  case (Cons m fs)
  from Cons.prems(1) show ?case
  proof (cases rule: manifest_loop_Cons_cases)
    case (error c1)
    then show ?thesis by simp
  next
    case (full c1)
    then show ?thesis by simp
  next
    case (more c1 w1 cs2)
    with Cons.prems(2) have "length cs2 < length fs" by simp
    from Cons.IH [OF more(3) this] more(4) show ?thesis by simp
  qed
qed

lemma error_call_is_last:
  assumes "\<forall>c \<in> set (butlast cs). call_ret c = FIDO_OK \<and> olen_after c \<noteq> ilen"
    and "c \<in> set cs" and "call_ret c \<noteq> FIDO_OK"
  shows "c = last cs"
proof -
  from assms(2) have ne: "cs \<noteq> []" by auto
  then have "cs = butlast cs @ [last cs]" by simp
  then have "set cs = set (butlast cs) \<union> {last cs}"
    by (metis list.simps(15) set_append empty_set Un_insert_right sup_bot.right_neutral)
  with assms show ?thesis by auto
qed

text \<open>
  C10, as the code has it. When every provider of the registry, whenever it returns Ok,
  reports a count that is at most the capacity it was given, \<^verbatim>\<open>fido_dev_info_manifest\<close>
  calls the providers of the registry in order, each at the position \<^verbatim>\<open>*olen\<close> and with
  the capacity \<^verbatim>\<open>ilen - *olen\<close>, and keeps \<^verbatim>\<open>*olen \<le> ilen\<close> after every call and at the
  end. It tests \<^verbatim>\<open>*olen == ilen\<close> after a call only: the first provider of a registry
  that is not empty is always called, and the next provider is called exactly when the
  call before it returned Ok and left \<^verbatim>\<open>*olen\<close> other than \<^verbatim>\<open>ilen\<close>. The status
  returned is that of the last call (Ok when there was none): a provider that returns an
  error is the last one called and its error is returned, with \<^verbatim>\<open>*olen\<close> the sum of the
  counts of the providers called before it, all of which returned Ok.
\<close>

theorem manifest_olen_bounded:
  assumes wb: "\<forall>m \<in> set fs. \<forall>off cap w c w'. m off cap w = ((FIDO_OK, c), w') \<longrightarrow> c \<le> cap"
    and run: "fido_dev_info_manifest fs ilen w = ((r, olen, cs), w')"
  shows "replay fs ilen 0 w cs = Some w' \<and>
         prefix (map call_func cs) fs \<and>
         olen \<le> ilen \<and>
         (\<forall>c \<in> set cs. olen_after c \<le> ilen) \<and>
         (fs \<noteq> [] \<longrightarrow> cs \<noteq> []) \<and>
         (\<forall>c \<in> set (butlast cs). call_ret c = FIDO_OK \<and> olen_after c \<noteq> ilen) \<and>
         (length cs < length fs \<longrightarrow>
            call_ret (last cs) \<noteq> FIDO_OK \<or> olen_after (last cs) = ilen) \<and>
         r = (if cs = [] then FIDO_OK else call_ret (last cs)) \<and>
         (\<forall>c \<in> set cs. call_ret c \<noteq> FIDO_OK \<longrightarrow> c = last cs \<and> r = call_ret c) \<and>
         unat olen =
           sum_list (map (\<lambda>c. unat (call_olen c)) (filter (\<lambda>c. call_ret c = FIDO_OK) cs)) \<and>
         (r \<noteq> FIDO_OK \<longrightarrow>
            unat olen = sum_list (map (\<lambda>c. unat (call_olen c)) (butlast cs)))"
proof -
  from run have loop: "manifest_loop fs ilen 0 w = ((r, olen, cs), w')"
    by (simp add: fido_dev_info_manifest_def)
  have z: "(0 :: size_t) \<le> ilen"
    by simp
  from loop have rp: "replay fs ilen 0 w cs = Some w'"
    by (rule manifest_loop_replay)
  from manifest_loop_bound [OF wb z loop]
  have b: "olen \<le> ilen" "\<forall>c \<in> set cs. olen_after c \<le> ilen"
    by simp_all
  from loop have p: "prefix (map call_func cs) fs"
    by (rule manifest_loop_prefix)
  from loop have bl: "\<forall>c \<in> set (butlast cs). call_ret c = FIDO_OK \<and> olen_after c \<noteq> ilen"
    by (rule manifest_loop_butlast)
  have st: "length cs < length fs \<longrightarrow>
      cs \<noteq> [] \<and> (call_ret (last cs) \<noteq> FIDO_OK \<or> olen_after (last cs) = ilen)"
    using loop by (auto dest: manifest_loop_stop)
  then have first: "fs \<noteq> [] \<longrightarrow> cs \<noteq> []"
    by auto
  from loop have res: "r = (if cs = [] then FIDO_OK else call_ret (last cs))"
    by (auto dest: manifest_loop_result)
  have errs: "\<forall>c \<in> set cs. call_ret c \<noteq> FIDO_OK \<longrightarrow> c = last cs \<and> r = call_ret c"
  proof (intro ballI impI)
    fix c assume c: "c \<in> set cs" "call_ret c \<noteq> FIDO_OK"
    with bl have "c = last cs" by (intro error_call_is_last)
    moreover from c have "cs \<noteq> []" by auto
    ultimately show "c = last cs \<and> r = call_ret c" using res by simp
  qed
  from manifest_loop_sum [OF wb z loop]
  have s: "unat olen =
      sum_list (map (\<lambda>c. unat (call_olen c)) (filter (\<lambda>c. call_ret c = FIDO_OK) cs))"
    by simp
  have e: "r \<noteq> FIDO_OK \<longrightarrow> unat olen = sum_list (map (\<lambda>c. unat (call_olen c)) (butlast cs))"
  proof
    assume ne: "r \<noteq> FIDO_OK"
    with res have "cs \<noteq> []" "call_ret (last cs) \<noteq> FIDO_OK"
      by (auto split: if_splits)
    with bl have "filter (\<lambda>c. call_ret c = FIDO_OK) cs = butlast cs"
      by (intro filter_ok_butlast) auto
    with s show "unat olen = sum_list (map (\<lambda>c. unat (call_olen c)) (butlast cs))"
      by simp
  qed
  from rp p b first bl st res errs s e show ?thesis
    by (intro conjI) auto
qed

theorem manifest_olen_bounded_witness:
  "fido_dev_info_manifest
     [ex_provider 1 FIDO_OK 2, ex_provider 2 (FIDO_ERR 5) 0, ex_provider 3 FIDO_OK 1] 8 [] =
     ((FIDO_ERR 5, 2,
       [\<lparr>call_func = ex_provider 1 FIDO_OK 2, call_cap = 8, call_ret = FIDO_OK, call_olen = 2,
         olen_after = 2\<rparr>,
        \<lparr>call_func = ex_provider 2 (FIDO_ERR 5) 0, call_cap = 6, call_ret = FIDO_ERR 5,
         call_olen = 0, olen_after = 2\<rparr>]),
      [Ev_manifest 1 0, Ev_manifest 2 2]) \<and>
   (2 :: size_t) \<le> 8 \<and>
   FIDO_ERR 5 \<noteq> FIDO_OK \<and>
   unat (2 :: size_t) =
     sum_list (map (\<lambda>c. unat (call_olen c))
       (butlast
         [\<lparr>call_func = ex_provider 1 FIDO_OK 2, call_cap = 8, call_ret = FIDO_OK, call_olen = 2,
           olen_after = 2\<rparr>,
          \<lparr>call_func = ex_provider 2 (FIDO_ERR 5) 0, call_cap = 6, call_ret = FIDO_ERR 5,
           call_olen = 0, olen_after = 2\<rparr>])) \<and>
   fido_dev_info_manifest [ex_provider 1 FIDO_OK 2, ex_provider 3 FIDO_OK 1] 2 [] =
     ((FIDO_OK, 2,
       [\<lparr>call_func = ex_provider 1 FIDO_OK 2, call_cap = 2, call_ret = FIDO_OK, call_olen = 2,
         olen_after = 2\<rparr>]),
      [Ev_manifest 1 0])"
proof -
  let ?fs = "[ex_provider 1 FIDO_OK 2, ex_provider 2 (FIDO_ERR 5) 0, ex_provider 3 FIDO_OK 1]"
  let ?cs = "[\<lparr>call_func = ex_provider 1 FIDO_OK 2, call_cap = 8, call_ret = FIDO_OK,
               call_olen = 2, olen_after = 2\<rparr>,
              \<lparr>call_func = ex_provider 2 (FIDO_ERR 5) 0, call_cap = 6, call_ret = FIDO_ERR 5,
               call_olen = 0, olen_after = 2\<rparr>]"
  have wb: "\<forall>m \<in> set ?fs. \<forall>off cap w c w'. m off cap w = ((FIDO_OK, c), w') \<longrightarrow> c \<le> cap"
    by (auto dest: ex_provider_wb)
  have run: "fido_dev_info_manifest ?fs 8 [] =
      ((FIDO_ERR 5, 2, ?cs), [Ev_manifest 1 0, Ev_manifest 2 2])"
    by (simp add: fido_dev_info_manifest_def ex_provider_def)
  have ne: "FIDO_ERR 5 \<noteq> FIDO_OK"
    by simp
  note inst = manifest_olen_bounded [OF wb run]
  from inst have le: "(2 :: size_t) \<le> 8"
    by blast
  from inst ne have sm: "unat (2 :: size_t) = sum_list (map (\<lambda>c. unat (call_olen c)) (butlast ?cs))"
    by blast
  have full: "fido_dev_info_manifest [ex_provider 1 FIDO_OK 2, ex_provider 3 FIDO_OK 1] 2 [] =
     ((FIDO_OK, 2,
       [\<lparr>call_func = ex_provider 1 FIDO_OK 2, call_cap = 2, call_ret = FIDO_OK, call_olen = 2,
         olen_after = 2\<rparr>]),
      [Ev_manifest 1 0])"
    by (simp add: fido_dev_info_manifest_def ex_provider_def)
  from run le ne sm full show ?thesis
    by (intro conjI)
qed

text \<open>
  The claim as the spec words it fails with \<^verbatim>\<open>ilen = 0\<close>: \<^verbatim>\<open>*olen\<close> equals \<^verbatim>\<open>ilen\<close>
  from the start, and the first provider is called all the same, with capacity 0.
\<close>

theorem manifest_zero_capacity_counterexample:
  "fido_dev_info_manifest [ex_provider 1 FIDO_OK 2] 0 [] =
     ((FIDO_OK, 0,
       [\<lparr>call_func = ex_provider 1 FIDO_OK 2, call_cap = 0, call_ret = FIDO_OK, call_olen = 0,
         olen_after = 0\<rparr>]),
      [Ev_manifest 1 0]) \<and>
   snd (fido_dev_info_manifest [ex_provider 1 FIDO_OK 2] 0 []) \<noteq> []"
  by (simp add: fido_dev_info_manifest_def ex_provider_def)

subsection \<open>Initialisation and teardown\<close>

lemma free_nodes_length: "free_nodes xs = length xs"
  by (induction xs) simp_all

lemma platform_provider_None:
  "(platform_provider pf use_hidapi le = None) = (pf = NO_PLATFORM)"
  by (cases pf) (simp_all add: platform_provider_def)

lemma fido_init_eq:
  "fido_init pf use_hidapi le calloc_ok flgs fs w =
     (let w1 = (if flgs AND FIDO_DEBUG \<noteq> 0 \<or> getenv_FIDO_DEBUG le w then fido_log_init le w else w);
          fs1 = (case platform_provider pf use_hidapi le of
                   None \<Rightarrow> fs
                 | Some p \<Rightarrow> if calloc_ok then p # fs else fs)
      in if pf = LINUX \<and> use_hidapi
         then (if fst (hid_init le w1) \<noteq> 0 then None else Some (fs1, snd (hid_init le w1)))
         else Some (fs1, w1))"
  by (cases pf)
    (auto simp: fido_init_def platform_provider_def fido_dev_register_manifest_func_def Let_def
      split: prod.splits)

text \<open>
  C3, as the code has it. \<^verbatim>\<open>fido_init\<close> returns unless \<^verbatim>\<open>hid_init\<close> fails in a Linux
  build with \<^verbatim>\<open>USE_HIDAPI\<close>, and the registry it leaves is the one it found, with the
  provider of the build at its head when the build has one and the allocation succeeds.
  So in a build for a platform two calls leave that provider twice at the head, which
  is not what one call leaves: there \<^verbatim>\<open>fido_init\<close> is not idempotent. It leaves the
  registry as it was exactly in a build for no platform and when the allocation fails.
  \<^verbatim>\<open>fido_exit\<close> frees every node and leaves the registry empty.
\<close>

theorem init_registers_on_each_call:
  "fido_init pf use_hidapi le calloc_ok flgs fs w =
     (let w1 = (if flgs AND FIDO_DEBUG \<noteq> 0 \<or> getenv_FIDO_DEBUG le w then fido_log_init le w else w);
          fs1 = (case platform_provider pf use_hidapi le of
                   None \<Rightarrow> fs
                 | Some p \<Rightarrow> if calloc_ok then p # fs else fs)
      in if pf = LINUX \<and> use_hidapi
         then (if fst (hid_init le w1) \<noteq> 0 then None else Some (fs1, snd (hid_init le w1)))
         else Some (fs1, w1)) \<and>
   (\<forall>p fs1 w1 fs2 w2.
      platform_provider pf use_hidapi le = Some p \<and>
      fido_init pf use_hidapi le True flgs fs w = Some (fs1, w1) \<and>
      fido_init pf use_hidapi le True flgs fs1 w1 = Some (fs2, w2) \<longrightarrow>
        fs1 = p # fs \<and> fs2 = p # p # fs \<and> fs2 \<noteq> fs1) \<and>
   (\<forall>fs1 w1. fido_init pf use_hidapi le calloc_ok flgs fs w = Some (fs1, w1) \<longrightarrow>
      (fs1 = fs) = (pf = NO_PLATFORM \<or> \<not> calloc_ok)) \<and>
   fido_exit use_hidapi le fs w = (([], length fs), if use_hidapi then hid_exit le w else w)"
proof -
  have twice: "\<forall>p fs1 w1 fs2 w2.
      platform_provider pf use_hidapi le = Some p \<and>
      fido_init pf use_hidapi le True flgs fs w = Some (fs1, w1) \<and>
      fido_init pf use_hidapi le True flgs fs1 w1 = Some (fs2, w2) \<longrightarrow>
        fs1 = p # fs \<and> fs2 = p # p # fs \<and> fs2 \<noteq> fs1"
    by (auto simp: fido_init_eq Let_def split: if_splits)
  have same: "\<forall>fs1 w1. fido_init pf use_hidapi le calloc_ok flgs fs w = Some (fs1, w1) \<longrightarrow>
      (fs1 = fs) = (pf = NO_PLATFORM \<or> \<not> calloc_ok)"
  proof (intro allI impI)
    fix fs1 w1
    assume "fido_init pf use_hidapi le calloc_ok flgs fs w = Some (fs1, w1)"
    then have fs1: "fs1 = (case platform_provider pf use_hidapi le of
                            None \<Rightarrow> fs
                          | Some p \<Rightarrow> if calloc_ok then p # fs else fs)"
      by (auto simp: fido_init_eq Let_def split: if_splits)
    show "(fs1 = fs) = (pf = NO_PLATFORM \<or> \<not> calloc_ok)"
    proof (cases "platform_provider pf use_hidapi le")
      case None
      with fs1 platform_provider_None [of pf use_hidapi le] show ?thesis
        by simp
    next
      case (Some p)
      with fs1 platform_provider_None [of pf use_hidapi le] show ?thesis
        by auto
    qed
  qed
  have ex: "fido_exit use_hidapi le fs w = (([], length fs), if use_hidapi then hid_exit le w else w)"
    by (simp add: fido_exit_def free_nodes_length)
  from fido_init_eq [of pf use_hidapi le calloc_ok flgs fs w] twice same ex show ?thesis
    by (intro conjI)
qed

theorem init_registers_on_each_call_witness:
  "platform_provider LINUX False ex_lib_env = Some (ex_provider 1 FIDO_OK 1) \<and>
   fido_init LINUX False ex_lib_env True 0 [ex_provider 9 FIDO_OK 1] [] =
     Some ([ex_provider 1 FIDO_OK 1, ex_provider 9 FIDO_OK 1], []) \<and>
   fido_init LINUX False ex_lib_env True 0 [ex_provider 1 FIDO_OK 1, ex_provider 9 FIDO_OK 1] [] =
     Some ([ex_provider 1 FIDO_OK 1, ex_provider 1 FIDO_OK 1, ex_provider 9 FIDO_OK 1], []) \<and>
   [ex_provider 1 FIDO_OK 1, ex_provider 1 FIDO_OK 1, ex_provider 9 FIDO_OK 1] \<noteq>
     [ex_provider 1 FIDO_OK 1, ex_provider 9 FIDO_OK 1] \<and>
   fido_init NO_PLATFORM False ex_lib_env True 0 [ex_provider 9 FIDO_OK 1] [] =
     Some ([ex_provider 9 FIDO_OK 1], []) \<and>
   fido_init LINUX False ex_lib_env False 0 [ex_provider 9 FIDO_OK 1] [] =
     Some ([ex_provider 9 FIDO_OK 1], []) \<and>
   fido_exit False ex_lib_env [ex_provider 1 FIDO_OK 1, ex_provider 9 FIDO_OK 1] [] = (([], 2), [])"
proof -
  let ?p1 = "ex_provider 1 FIDO_OK 1" and ?p9 = "ex_provider 9 FIDO_OK 1"
  have pp: "platform_provider LINUX False ex_lib_env = Some ?p1"
    by (simp add: platform_provider_def ex_lib_env_def)
  have a: "fido_init LINUX False ex_lib_env True 0 [?p9] [] = Some ([?p1, ?p9], [])"
    by (simp add: fido_init_def ex_lib_env_def fido_dev_register_manifest_func_def FIDO_DEBUG_def)
  have a2: "fido_init LINUX False ex_lib_env True 0 [?p1, ?p9] [] = Some ([?p1, ?p1, ?p9], [])"
    by (simp add: fido_init_def ex_lib_env_def fido_dev_register_manifest_func_def FIDO_DEBUG_def)
  have b: "fido_init NO_PLATFORM False ex_lib_env True 0 [?p9] [] = Some ([?p9], [])"
    by (simp add: fido_init_def ex_lib_env_def FIDO_DEBUG_def)
  have c: "fido_init LINUX False ex_lib_env False 0 [?p9] [] = Some ([?p9], [])"
    by (simp add: fido_init_def ex_lib_env_def fido_dev_register_manifest_func_def FIDO_DEBUG_def)
  note grow = init_registers_on_each_call [of LINUX False ex_lib_env True 0 "[?p9]" "[]"]
  note keep = init_registers_on_each_call [of NO_PLATFORM False ex_lib_env True 0 "[?p1, ?p9]" "[]"]
  from grow pp a a2 have d: "[?p1, ?p1, ?p9] \<noteq> [?p1, ?p9]"
    by blast
  from keep have "fido_exit False ex_lib_env [?p1, ?p9] [] =
      (([], length [?p1, ?p9]), if False then hid_exit ex_lib_env [] else [])"
    by blast
  then have e: "fido_exit False ex_lib_env [?p1, ?p9] [] = (([], 2), [])"
    by simp
  from pp a a2 d b c e show ?thesis
    by (intro conjI)
qed

text \<open>
  The claim as the spec words it fails: in a Linux build, a second \<^verbatim>\<open>fido_init\<close> leaves
  two nodes in the registry where the first left one.
\<close>

theorem init_twice_counterexample:
  "fido_init LINUX False ex_lib_env True 0 [] [] = Some ([ex_provider 1 FIDO_OK 1], []) \<and>
   fido_init LINUX False ex_lib_env True 0 [ex_provider 1 FIDO_OK 1] [] =
     Some ([ex_provider 1 FIDO_OK 1, ex_provider 1 FIDO_OK 1], []) \<and>
   [ex_provider 1 FIDO_OK 1, ex_provider 1 FIDO_OK 1] \<noteq> [ex_provider 1 FIDO_OK 1]"
  by (simp add: fido_init_def ex_lib_env_def fido_dev_register_manifest_func_def FIDO_DEBUG_def)

end
